theory Spec2Isabelle
  imports Complex_Main "HOL-Library.Multiset" "HOL-Library.Word" "HOL-Library.Monad_Syntax"
begin

section \<open>Data model (src/types/dicom.ts)\<close>

text \<open>
  A JavaScript \<open>number\<close> that the parsing hook stores in an image is modelled as a
  \<^typ>\<open>real\<close>: every numeric field is produced by \<open>read || default\<close>, which removes
  \<open>undefined\<close> and \<open>NaN\<close>; the fields hold finite values, an infinite read is outside the
  model. The hook orders these values by the sign of their difference; the one place
  where it computes with them, the plane classifier, is modelled on the engine's numbers
  below. Counters read with \<open>uint16\<close> are natural numbers.
\<close>

record DicomImage =
  imageId :: string
  instanceNumber :: nat
  sliceLocation :: real
  imagePositionPatient :: "real list"
  imageOrientationPatient :: "real list"
  pixelSpacing :: "real list"
  rows :: nat
  columns :: nat
  bitsAllocated :: nat
  samplesPerPixel :: nat
  photometricInterpretation :: string
  windowCenter :: real
  windowWidth :: real
  rescaleIntercept :: real
  rescaleSlope :: real

record DicomSeries =
  seriesInstanceUID :: string
  seriesDescription :: string
  modality :: string
  images :: "DicomImage list"
  axialImages :: "DicomImage list"
  coronalImages :: "DicomImage list"
  sagittalImages :: "DicomImage list"

datatype ViewType = Axial | Coronal | Sagittal

section \<open>Numbers of the JavaScript engine\<close>

text \<open>
  The value of an arithmetic expression on IEEE doubles: \<open>NaN\<close>, an infinity, or a finite
  value, given by the real number it denotes. The two zeros are one value: the classifier
  only takes absolute values, compares, and divides by a magnitude it has tested to be
  positive, so the sign of a zero never reaches a result.
\<close>

datatype number = NaN | NegInf | Fin real | PosInf

text \<open>
  What an arithmetic operation returns is the engine's business: \<open>*\<close>, \<open>-\<close>, \<open>+\<close> and
  \<open>/\<close> round to the nearest double, \<open>x ** 2\<close> and \<open>Math.sqrt\<close> are
  implementation-approximated. The operations are parameters of the model, so that
  nothing is claimed about a result that rounding decides.
\<close>

record engine =
  fmul :: "number \<Rightarrow> number \<Rightarrow> number"
  fsub :: "number \<Rightarrow> number \<Rightarrow> number"
  fadd :: "number \<Rightarrow> number \<Rightarrow> number"
  fdiv :: "number \<Rightarrow> number \<Rightarrow> number"
  fsquare :: "number \<Rightarrow> number"
  fsqrt :: "number \<Rightarrow> number"

text \<open>
  Comparisons, \<open>Math.abs\<close> and \<open>Math.max\<close> are exact. A comparison with \<open>NaN\<close> is
  false; \<open>Math.max\<close> is \<open>NaN\<close> as soon as one argument is.
\<close>

fun jsLess :: "number \<Rightarrow> number \<Rightarrow> bool" where
  "jsLess (Fin x) (Fin y) = (x < y)"
| "jsLess (Fin x) PosInf = True"
| "jsLess NegInf (Fin y) = True"
| "jsLess NegInf PosInf = True"
| "jsLess a b = False"

definition jsGreater :: "number \<Rightarrow> number \<Rightarrow> bool" where
  "jsGreater a b = jsLess b a"

definition jsStrictEq :: "number \<Rightarrow> number \<Rightarrow> bool" where
  "jsStrictEq a b = (a \<noteq> NaN \<and> b \<noteq> NaN \<and> a = b)"

fun mathAbs :: "number \<Rightarrow> number" where
  "mathAbs NaN = NaN"
| "mathAbs NegInf = PosInf"
| "mathAbs PosInf = PosInf"
| "mathAbs (Fin x) = Fin \<bar>x\<bar>"

definition mathMax2 :: "number \<Rightarrow> number \<Rightarrow> number" where
  "mathMax2 a b = (if a = NaN \<or> b = NaN then NaN else if jsLess a b then b else a)"

definition mathMax :: "number \<Rightarrow> number \<Rightarrow> number \<Rightarrow> number" where
  "mathMax a b c = mathMax2 (mathMax2 a b) c"

text \<open>The literal \<open>0.1\<close> is the double nearest to one tenth.\<close>

definition tenth :: number where
  "tenth = Fin (3602879701896397 / 36028797018963968)"

section \<open>Plane classification (useDicomParser.ts, classifyPlanes, the loop body)\<close>

text \<open>\<open>isClose(a, b, eps = 0.1)\<close>; every call in the source uses the default tolerance.\<close>

definition isClose :: "engine \<Rightarrow> number \<Rightarrow> number \<Rightarrow> bool" where
  "isClose fpu a b = jsLess (mathAbs (fsub fpu a b)) tenth"

text \<open>
  \<open>iop[i]\<close>: an index past the end reads \<open>undefined\<close>, which arithmetic takes as \<open>NaN\<close>.
\<close>

definition component :: "number list \<Rightarrow> nat \<Rightarrow> number" where
  "component iop i = (if i < length iop then iop ! i else NaN)"

text \<open>\<open>normal\<close>, \<open>magnitude\<close> and \<open>normalized\<close> of lines 119-132.\<close>

definition normalOf :: "engine \<Rightarrow> number list \<Rightarrow> number list" where
  "normalOf fpu iop =
     (let row = [component iop 0, component iop 1, component iop 2];
          col = [component iop 3, component iop 4, component iop 5]
      in [fsub fpu (fmul fpu (row ! 1) (col ! 2)) (fmul fpu (row ! 2) (col ! 1)),
          fsub fpu (fmul fpu (row ! 2) (col ! 0)) (fmul fpu (row ! 0) (col ! 2)),
          fsub fpu (fmul fpu (row ! 0) (col ! 1)) (fmul fpu (row ! 1) (col ! 0))])"

definition magnitudeOf :: "engine \<Rightarrow> number list \<Rightarrow> number" where
  "magnitudeOf fpu normal =
     fsqrt fpu
       (fadd fpu (fadd fpu (fsquare fpu (normal ! 0)) (fsquare fpu (normal ! 1)))
          (fsquare fpu (normal ! 2)))"

definition normalizedOf :: "engine \<Rightarrow> number list \<Rightarrow> number list" where
  "normalizedOf fpu iop =
     (let normal = normalOf fpu iop;
          magnitude = magnitudeOf fpu normal
      in if jsGreater magnitude (Fin 0) then map (\<lambda>v. fdiv fpu v magnitude) normal
         else [Fin 0, Fin 0, Fin 1])"

text \<open>The decision of lines 134-153.\<close>

definition classifyPlane :: "engine \<Rightarrow> number list \<Rightarrow> ViewType" where
  "classifyPlane fpu iop =
     (let normalized = normalizedOf fpu iop in
      if isClose fpu (mathAbs (normalized ! 2)) (Fin 1) then Axial
      else if isClose fpu (mathAbs (normalized ! 1)) (Fin 1) then Coronal
      else if isClose fpu (mathAbs (normalized ! 0)) (Fin 1) then Sagittal
      else
        let maxComponent =
              mathMax (mathAbs (normalized ! 0)) (mathAbs (normalized ! 1))
                (mathAbs (normalized ! 2))
        in if jsStrictEq maxComponent (mathAbs (normalized ! 2)) then Axial
           else if jsStrictEq maxComponent (mathAbs (normalized ! 1)) then Coronal
           else Sagittal)"

subsection \<open>The classifier as the specification words it\<close>

text \<open>
  The same arithmetic, so that the two can be compared: the cross product of the row and
  column vectors, normalised when the magnitude is positive; a component is within 0.1 of
  1 when the distance is below the tolerance; the largest component is one that no other
  exceeds, and the planes are tried in the order axial, coronal, sagittal.
\<close>

type_synonym vec3 = "number \<times> number \<times> number"

definition cross :: "engine \<Rightarrow> vec3 \<Rightarrow> vec3 \<Rightarrow> vec3" where
  "cross fpu r c =
     (case r of (rx, ry, rz) \<Rightarrow> case c of (cx, cy, cz) \<Rightarrow>
        (fsub fpu (fmul fpu ry cz) (fmul fpu rz cy),
         fsub fpu (fmul fpu rz cx) (fmul fpu rx cz),
         fsub fpu (fmul fpu rx cy) (fmul fpu ry cx)))"

definition spec_slice_normal :: "engine \<Rightarrow> vec3 \<Rightarrow> vec3 \<Rightarrow> vec3" where
  "spec_slice_normal fpu r c =
     (case cross fpu r c of (nx, ny, nz) \<Rightarrow>
        let m = fsqrt fpu
                  (fadd fpu (fadd fpu (fsquare fpu nx) (fsquare fpu ny)) (fsquare fpu nz))
        in if jsLess (Fin 0) m then (fdiv fpu nx m, fdiv fpu ny m, fdiv fpu nz m)
           else (Fin 0, Fin 0, Fin 1))"

definition within_tenth_of_one :: "engine \<Rightarrow> number \<Rightarrow> bool" where
  "within_tenth_of_one fpu v = jsLess (mathAbs (fsub fpu v (Fin 1))) tenth"

text \<open>\<open>a >= b\<close>: neither is \<open>NaN\<close> and \<open>a\<close> is not below \<open>b\<close>.\<close>

definition jsAtLeast :: "number \<Rightarrow> number \<Rightarrow> bool" where
  "jsAtLeast a b = (a \<noteq> NaN \<and> b \<noteq> NaN \<and> \<not> jsLess a b)"

definition spec_classify :: "engine \<Rightarrow> vec3 \<Rightarrow> vec3 \<Rightarrow> ViewType" where
  "spec_classify fpu r c =
     (case spec_slice_normal fpu r c of (nx, ny, nz) \<Rightarrow>
        if within_tenth_of_one fpu (mathAbs nz) then Axial
        else if within_tenth_of_one fpu (mathAbs ny) then Coronal
        else if within_tenth_of_one fpu (mathAbs nx) then Sagittal
        else if jsAtLeast (mathAbs nz) (mathAbs nx) \<and> jsAtLeast (mathAbs nz) (mathAbs ny)
        then Axial
        else if jsAtLeast (mathAbs ny) (mathAbs nx) \<and> jsAtLeast (mathAbs ny) (mathAbs nz)
        then Coronal
        else Sagittal)"

text \<open>
  An engine is exact on the units when every operation on \<open>-1\<close>, \<open>0\<close> and \<open>1\<close> whose exact
  result is again one of them returns that result, as IEEE arithmetic does.
\<close>

definition exactOnUnits :: "engine \<Rightarrow> bool" where
  "exactOnUnits fpu =
     (\<forall>x \<in> {-1, 0, 1}. \<forall>y \<in> {-1, 0, 1}.
        fmul fpu (Fin x) (Fin y) = Fin (x * y)
        \<and> (x - y \<in> {-1, 0, 1} \<longrightarrow> fsub fpu (Fin x) (Fin y) = Fin (x - y))
        \<and> (x + y \<in> {-1, 0, 1} \<longrightarrow> fadd fpu (Fin x) (Fin y) = Fin (x + y))
        \<and> (y \<noteq> 0 \<longrightarrow> fdiv fpu (Fin x) (Fin y) = Fin (x / y))
        \<and> fsquare fpu (Fin x) = Fin (x * x)
        \<and> (0 \<le> x \<longrightarrow> fsqrt fpu (Fin x) = Fin x))"

section \<open>JavaScript library behaviour the hook relies on\<close>

text \<open>
  \<open>Array.prototype.sort(compareFn)\<close> sorts in place and is stable: \<open>a\<close> stays before
  \<open>b\<close> unless \<open>compareFn(a, b) > 0\<close> forces otherwise. It is modelled as the insertion
  sort driven by the comparator; the comparators of the source are differences of a
  numeric key.
\<close>

fun insertBy :: "('a \<Rightarrow> 'a \<Rightarrow> real) \<Rightarrow> 'a \<Rightarrow> 'a list \<Rightarrow> 'a list" where
  "insertBy compareFn x [] = [x]"
| "insertBy compareFn x (y # ys) =
     (if compareFn x y \<le> 0 then x # y # ys else y # insertBy compareFn x ys)"

definition arraySort :: "('a \<Rightarrow> 'a \<Rightarrow> real) \<Rightarrow> 'a list \<Rightarrow> 'a list" where
  "arraySort compareFn xs = foldr (insertBy compareFn) xs []"

text \<open>
  A \<open>Map\<close> keeps its keys in insertion order; \<open>set\<close> on a key already present replaces
  the value where it stands.
\<close>

type_synonym 'v jsMap = "(string \<times> 'v) list"

fun mapSet :: "string \<Rightarrow> 'v \<Rightarrow> 'v jsMap \<Rightarrow> 'v jsMap" where
  "mapSet k v [] = [(k, v)]"
| "mapSet k v ((k', v') # m) = (if k' = k then (k, v) # m else (k', v') # mapSet k v m)"

definition mapHas :: "string \<Rightarrow> 'v jsMap \<Rightarrow> bool" where
  "mapHas k m = (map_of m k \<noteq> None)"

definition mapGet :: "string \<Rightarrow> 'v jsMap \<Rightarrow> 'v option" where
  "mapGet k m = map_of m k"

text \<open>
  What a read of the dicom-parser data set can do: throw, return \<open>undefined\<close>, or return a
  value. A \<open>float\<close> read that returns \<open>NaN\<close> is counted with \<open>Undefined\<close>: both are
  falsy, and the source only ever uses a read as the left operand of \<open>||\<close>.
\<close>

datatype 'a rd = Throws | Undefined | Value 'a

text \<open>
  \<open>read || d\<close>: \<open>None\<close> when the read throws (the exception leaves the enclosing
  \<open>try\<close> block), otherwise the value read unless it is falsy (\<open>undefined\<close>, \<open>NaN\<close>, \<open>0\<close>),
  otherwise \<open>d\<close>.
\<close>

definition orNum :: "('a :: zero) rd \<Rightarrow> 'a \<Rightarrow> 'a option" where
  "orNum r d =
     (case r of Throws \<Rightarrow> None | Undefined \<Rightarrow> Some d
      | Value v \<Rightarrow> Some (if v = 0 then d else v))"

definition orStr :: "string rd \<Rightarrow> string \<Rightarrow> string option" where
  "orStr r d =
     (case r of Throws \<Rightarrow> None | Undefined \<Rightarrow> Some d
      | Value v \<Rightarrow> Some (if v = [] then d else v))"

text \<open>
  The data set \<open>dicomParser.parseDicom\<close> returns, as far as the hook uses it:
  \<open>elements[tag]\<close> with its \<open>length\<close> field, which is the number of bytes of the
  element's value, and the readers \<open>float(tag, index)\<close>, \<open>uint16(tag)\<close> and
  \<open>string(tag)\<close>. \<open>float(tag, index)\<close> decodes the four bytes at offset \<open>4 * index\<close> from
  the start of the value, whatever the length of a non-empty element is, and throws past
  the end of the buffer: what it returns for each index is a field of the model.
\<close>

record DataSet =
  elements :: "string \<Rightarrow> nat option"
  float_rd :: "string \<Rightarrow> nat \<Rightarrow> real rd"
  uint16_rd :: "string \<Rightarrow> nat rd"
  string_rd :: "string \<Rightarrow> string rd"

type_synonym byte = "8 word"
type_synonym bytes = "byte list"

text \<open>
  \<open>dicomParser.parseDicom(bytes, options)\<close>: the second argument is the \<open>untilTag\<close>
  option when given; \<open>None\<close> as a result stands for a thrown exception.
\<close>

type_synonym dicomParser = "bytes \<Rightarrow> string option \<Rightarrow> DataSet option"

text \<open>
  An archive entry of JSZip: the \<open>dir\<close> flag and what \<open>async("arraybuffer")\<close> resolves
  to (\<open>None\<close> when the promise rejects). \<open>zip.loadAsync(file)\<close> either throws or yields
  the entries, listed in the order of \<open>Object.entries(zipData.files)\<close>.
\<close>

record ZipEntry =
  dir :: bool
  arraybuffer :: "bytes option"

datatype thrown = ErrorObject string | OtherValue

type_synonym archive = "thrown + (string \<times> ZipEntry) list"

section \<open>The byte cache (utils/cornerstoneInit.ts)\<close>

definition storeDicomData :: "string \<Rightarrow> bytes \<Rightarrow> bytes jsMap \<Rightarrow> bytes jsMap" where
  "storeDicomData filename arrayBuffer dicomDataCache = mapSet filename arrayBuffer dicomDataCache"

definition clearDicomData :: "bytes jsMap \<Rightarrow> bytes jsMap" where
  "clearDicomData dicomDataCache = []"

section \<open>Attribute decoding (useDicomParser.ts, lines 24-99)\<close>

definition getImagePositionPatient :: "DataSet \<Rightarrow> real list option" where
  "getImagePositionPatient dataSet =
     (case elements dataSet ''x00200032'' of
        None \<Rightarrow> Some [0, 0, 0]
      | Some len \<Rightarrow>
          if len \<ge> 3 then
            do {
              p0 \<leftarrow> orNum (float_rd dataSet ''x00200032'' 0) 0;
              p1 \<leftarrow> orNum (float_rd dataSet ''x00200032'' 1) 0;
              p2 \<leftarrow> orNum (float_rd dataSet ''x00200032'' 2) 0;
              Some [p0, p1, p2]
            }
          else Some [0, 0, 0])"

definition getImageOrientationPatient :: "DataSet \<Rightarrow> real list option" where
  "getImageOrientationPatient dataSet =
     (case elements dataSet ''x00200037'' of
        None \<Rightarrow> Some [1, 0, 0, 0, 1, 0]
      | Some len \<Rightarrow>
          if len \<ge> 6 then
            do {
              o0 \<leftarrow> orNum (float_rd dataSet ''x00200037'' 0) 0;
              o1 \<leftarrow> orNum (float_rd dataSet ''x00200037'' 1) 0;
              o2 \<leftarrow> orNum (float_rd dataSet ''x00200037'' 2) 0;
              o3 \<leftarrow> orNum (float_rd dataSet ''x00200037'' 3) 0;
              o4 \<leftarrow> orNum (float_rd dataSet ''x00200037'' 4) 0;
              o5 \<leftarrow> orNum (float_rd dataSet ''x00200037'' 5) 0;
              Some [o0, o1, o2, o3, o4, o5]
            }
          else Some [1, 0, 0, 0, 1, 0])"

definition getPixelSpacing :: "DataSet \<Rightarrow> real list option" where
  "getPixelSpacing dataSet =
     (case elements dataSet ''x00280030'' of
        None \<Rightarrow> Some [1, 1]
      | Some len \<Rightarrow>
          if len \<ge> 2 then
            do {
              s0 \<leftarrow> orNum (float_rd dataSet ''x00280030'' 0) 1;
              s1 \<leftarrow> orNum (float_rd dataSet ''x00280030'' 1) 1;
              Some [s0, s1]
            }
          else Some [1, 1])"

text \<open>
  \<open>parseDicomFile\<close>: \<open>None\<close> is the \<open>null\<close> of the \<open>catch\<close> branch, reached when
  \<open>parseDicom\<close> or any read throws.
\<close>

definition parseDicomFile :: "dicomParser \<Rightarrow> bytes \<Rightarrow> string \<Rightarrow> DicomImage option" where
  "parseDicomFile parseDicom arrayBuffer filename =
     do {
       dataSet \<leftarrow> parseDicom arrayBuffer None;
       instanceNumber' \<leftarrow> orNum (uint16_rd dataSet ''x00200013'') 0;
       sliceLocation' \<leftarrow> orNum (float_rd dataSet ''x00201041'' 0) 0;
       imagePositionPatient' \<leftarrow> getImagePositionPatient dataSet;
       imageOrientationPatient' \<leftarrow> getImageOrientationPatient dataSet;
       pixelSpacing' \<leftarrow> getPixelSpacing dataSet;
       rows' \<leftarrow> orNum (uint16_rd dataSet ''x00280010'') 0;
       columns' \<leftarrow> orNum (uint16_rd dataSet ''x00280011'') 0;
       bitsAllocated' \<leftarrow> orNum (uint16_rd dataSet ''x00280100'') 16;
       samplesPerPixel' \<leftarrow> orNum (uint16_rd dataSet ''x00280002'') 1;
       photometricInterpretation' \<leftarrow> orStr (string_rd dataSet ''x00280004'') ''MONOCHROME2'';
       windowCenter' \<leftarrow> orNum (float_rd dataSet ''x00281050'' 0) 0;
       windowWidth' \<leftarrow> orNum (float_rd dataSet ''x00281051'' 0) 0;
       rescaleIntercept' \<leftarrow> orNum (float_rd dataSet ''x00281052'' 0) 0;
       rescaleSlope' \<leftarrow> orNum (float_rd dataSet ''x00281053'' 0) 1;
       Some \<lparr> imageId = ''dicom:'' @ filename,
              instanceNumber = instanceNumber',
              sliceLocation = sliceLocation',
              imagePositionPatient = imagePositionPatient',
              imageOrientationPatient = imageOrientationPatient',
              pixelSpacing = pixelSpacing',
              rows = rows',
              columns = columns',
              bitsAllocated = bitsAllocated',
              samplesPerPixel = samplesPerPixel',
              photometricInterpretation = photometricInterpretation',
              windowCenter = windowCenter',
              windowWidth = windowWidth',
              rescaleIntercept = rescaleIntercept',
              rescaleSlope = rescaleSlope' \<rparr>
     }"

text \<open>\<open>dataSet.string("x0020000e") || null\<close>, and \<open>null\<close> when anything throws.\<close>

definition getSeriesInstanceUID :: "dicomParser \<Rightarrow> bytes \<Rightarrow> string option" where
  "getSeriesInstanceUID parseDicom arrayBuffer =
     (case parseDicom arrayBuffer None of
        None \<Rightarrow> None
      | Some dataSet \<Rightarrow>
          (case string_rd dataSet ''x0020000e'' of
             Throws \<Rightarrow> None
           | Undefined \<Rightarrow> None
           | Value uid \<Rightarrow> if uid = [] then None else Some uid))"

section \<open>Sorting and the plane stacks (useDicomParser.ts, lines 101-179)\<close>

definition sortImagesByPosition :: "DicomImage list \<Rightarrow> DicomImage list" where
  "sortImagesByPosition imgs = arraySort (\<lambda>a b. sliceLocation a - sliceLocation b) imgs"

text \<open>
  The loop of lines 117-154 pushes every image onto one of three arrays.
  \<open>img.imageOrientationPatient || [1,0,0,0,1,0]\<close> is the orientation itself: an array is
  never falsy. The components an image stores are finite and enter the arithmetic as
  such.
\<close>

fun classifyLoop ::
  "engine \<Rightarrow> DicomImage list \<Rightarrow> DicomImage list \<times> DicomImage list \<times> DicomImage list
     \<Rightarrow> DicomImage list \<times> DicomImage list \<times> DicomImage list" where
  "classifyLoop fpu [] acc = acc"
| "classifyLoop fpu (img # rest) (axial, coronal, sagittal) =
     classifyLoop fpu rest
       (case classifyPlane fpu (map Fin (imageOrientationPatient img)) of
          Axial \<Rightarrow> (axial @ [img], coronal, sagittal)
        | Coronal \<Rightarrow> (axial, coronal @ [img], sagittal)
        | Sagittal \<Rightarrow> (axial, coronal, sagittal @ [img]))"

text \<open>
  \<open>a.imagePositionPatient[axisIndex] || 0\<close>: the component, or \<open>0\<close> when the array is
  too short (a component that is \<open>0\<close> stays \<open>0\<close>).
\<close>

definition positionKey :: "nat \<Rightarrow> DicomImage \<Rightarrow> real" where
  "positionKey axisIndex a =
     (if axisIndex < length (imagePositionPatient a)
      then imagePositionPatient a ! axisIndex else 0)"

definition orderBy :: "DicomImage list \<Rightarrow> nat \<Rightarrow> DicomImage list" where
  "orderBy arr axisIndex =
     arraySort (\<lambda>a b. positionKey axisIndex a - positionKey axisIndex b) arr"

text \<open>Lines 163-168: the three fallback tests run in sequence, each seeing the one before.\<close>

definition fallbackFill ::
  "DicomImage list \<Rightarrow> DicomImage list \<times> DicomImage list \<times> DicomImage list
     \<Rightarrow> DicomImage list \<times> DicomImage list \<times> DicomImage list" where
  "fallbackFill imgs buckets =
     (case buckets of (axial, coronal, sagittal) \<Rightarrow>
        let axial = (if length axial = 0 \<and> (length coronal > 0 \<or> length sagittal > 0)
                     then axial @ imgs else axial);
            coronal = (if length coronal = 0 \<and> (length axial > 0 \<or> length sagittal > 0)
                       then coronal @ imgs else coronal);
            sagittal = (if length sagittal = 0 \<and> (length axial > 0 \<or> length coronal > 0)
                        then sagittal @ imgs else sagittal)
        in (axial, coronal, sagittal))"

text \<open>The result triple is \<open>(axialImages, coronalImages, sagittalImages)\<close>.\<close>

definition classifyPlanes ::
  "engine \<Rightarrow> DicomImage list \<Rightarrow> DicomImage list \<times> DicomImage list \<times> DicomImage list" where
  "classifyPlanes fpu imgs =
     (case fallbackFill imgs (classifyLoop fpu imgs ([], [], [])) of
        (axial, coronal, sagittal) \<Rightarrow>
          (orderBy axial 2, orderBy coronal 1, orderBy sagittal 0))"

section \<open>The archive run (useDicomParser.ts, parseZipFile)\<close>

text \<open>
  The working state of one run: the module-level byte cache, the local arrays and map of
  \<open>parseZipFile\<close>, and \<open>reported\<close>, the values passed to \<open>setLoadingProgress\<close> so far, in
  order. Status messages are not modelled.
\<close>

record LoopState =
  dicomDataCache :: "bytes jsMap"
  dicomFiles :: "DicomImage list"
  seriesMap :: "DicomImage list jsMap"
  processedCount :: nat
  reported :: "real list"

definition hasDICM :: "bytes \<Rightarrow> bool" where
  "hasDICM bs =
     (length bs > 132 \<and> bs ! 128 = 0x44 \<and> bs ! 129 = 0x49 \<and> bs ! 130 = 0x43
      \<and> bs ! 131 = 0x4d)"

definition parsedOk :: "dicomParser \<Rightarrow> bytes \<Rightarrow> bool" where
  "parsedOk parseDicom bs = (parseDicom bs (Some ''x00020010'') \<noteq> None)"

text \<open>\<open>filename.split("/").pop() || filename\<close>\<close>

definition justFilenameOf :: "string \<Rightarrow> string" where
  "justFilenameOf filename =
     (let lastPart = rev (takeWhile (\<lambda>c. c \<noteq> CHR ''/'') (rev filename))
      in if lastPart = [] then filename else lastPart)"

text \<open>Line 207: \<open>20 + (i / fileEntries.length) * 60\<close>\<close>

definition progressAt :: "nat \<Rightarrow> nat \<Rightarrow> real" where
  "progressAt n i = 20 + (real i / real n) * 60"

text \<open>
  Lines 247-248: create the series' array when missing, then push the image. The key is
  present when \<open>get\<close> is called, so its \<open>None\<close> branch is never taken.
\<close>

definition addToSeries :: "string \<Rightarrow> DicomImage \<Rightarrow> DicomImage list jsMap \<Rightarrow> DicomImage list jsMap" where
  "addToSeries seriesUID dicomImage m =
     (let m = (if \<not> mapHas seriesUID m then mapSet seriesUID [] m else m)
      in case mapGet seriesUID m of
           None \<Rightarrow> m
         | Some arr \<Rightarrow> mapSet seriesUID (arr @ [dicomImage]) m)"

text \<open>
  One iteration of the loop of lines 205-255, for entry \<open>i\<close> of \<open>n\<close>. A rejected read of
  the entry is caught by the inner \<open>catch\<close>; \<open>continue\<close> and the \<open>catch\<close> both go on to the
  next entry.
\<close>

definition processEntry ::
  "dicomParser \<Rightarrow> nat \<Rightarrow> nat \<Rightarrow> string \<times> ZipEntry \<Rightarrow> LoopState \<Rightarrow> LoopState" where
  "processEntry parseDicom n i entry st0 =
     (case entry of (filename, zipEntry) \<Rightarrow>
        let st = st0\<lparr>reported := reported st0 @ [progressAt n i]\<rparr> in
        case arraybuffer zipEntry of
          None \<Rightarrow> st
        | Some arrayBuffer \<Rightarrow>
            if \<not> hasDICM arrayBuffer \<and> \<not> parsedOk parseDicom arrayBuffer then st
            else
              let st = st\<lparr>dicomDataCache :=
                           storeDicomData filename arrayBuffer (dicomDataCache st)\<rparr>;
                  justFilename = justFilenameOf filename;
                  st = (if justFilename \<noteq> filename
                        then st\<lparr>dicomDataCache :=
                                  storeDicomData justFilename arrayBuffer (dicomDataCache st)\<rparr>
                        else st)
              in case parseDicomFile parseDicom arrayBuffer justFilename of
                   None \<Rightarrow> st
                 | Some dicomImage \<Rightarrow>
                     let st = st\<lparr>processedCount := processedCount st + 1,
                                  dicomFiles := dicomFiles st @ [dicomImage]\<rparr>
                     in case getSeriesInstanceUID parseDicom arrayBuffer of
                          None \<Rightarrow> st
                        | Some seriesUID \<Rightarrow>
                            st\<lparr>seriesMap := addToSeries seriesUID dicomImage (seriesMap st)\<rparr>)"

fun entryLoop ::
  "dicomParser \<Rightarrow> nat \<Rightarrow> nat \<Rightarrow> (string \<times> ZipEntry) list \<Rightarrow> LoopState \<Rightarrow> LoopState" where
  "entryLoop parseDicom n i [] st = st"
| "entryLoop parseDicom n i (entry # rest) st =
     entryLoop parseDicom n (i + 1) rest (processEntry parseDicom n i entry st)"

text \<open>Lines 262-278: one series per key of the map that has images, in key order.\<close>

fun assembleSeries :: "engine \<Rightarrow> DicomImage list jsMap \<Rightarrow> DicomSeries list" where
  "assembleSeries fpu [] = []"
| "assembleSeries fpu ((seriesUID, imgs) # rest) =
     (if length imgs > 0 then
        (let sortedImages = sortImagesByPosition imgs in
         case classifyPlanes fpu sortedImages of
           (axialImages', coronalImages', sagittalImages') \<Rightarrow>
             [\<lparr> seriesInstanceUID = seriesUID,
                seriesDescription = ''DICOM Series'',
                modality = ''CT'',
                images = sortedImages,
                axialImages = axialImages',
                coronalImages = coronalImages',
                sagittalImages = sagittalImages' \<rparr>])
      else [])
     @ assembleSeries fpu rest"

text \<open>Lines 198-200: the entries that are not directories.\<close>

definition fileEntriesOf :: "(string \<times> ZipEntry) list \<Rightarrow> (string \<times> ZipEntry) list" where
  "fileEntriesOf files = filter (\<lambda>(name, f). \<not> dir f) files"

text \<open>The React state of the hook, and what a run leaves behind.\<close>

record HookState =
  series :: "DicomSeries list"
  isLoading :: bool
  error :: "string option"
  hasLoaded :: bool
  loadingProgress :: real

record RunResult =
  hook :: HookState
  cache :: "bytes jsMap"
  progress :: "real list"

definition errorMessage :: "thrown \<Rightarrow> string" where
  "errorMessage err =
     (case err of ErrorObject message \<Rightarrow> message
      | OtherValue \<Rightarrow> ''Failed to process DICOM files'')"

definition noValidFiles :: string where
  "noValidFiles = ''No valid DICOM files found in the ZIP archive''"

definition parseZipFile ::
  "engine \<Rightarrow> dicomParser \<Rightarrow> archive \<Rightarrow> HookState \<Rightarrow> bytes jsMap \<Rightarrow> RunResult" where
  "parseZipFile fpu parseDicom loaded hook0 cache0 =
     (let h = hook0\<lparr>isLoading := True, error := None, hasLoaded := False,
                     loadingProgress := 0\<rparr>;
          h = h\<lparr>loadingProgress := 10\<rparr>
      in case loaded of
           Inl err \<Rightarrow>
             \<lparr> hook = h\<lparr>error := Some (errorMessage err), isLoading := False\<rparr>,
               cache = cache0,
               progress = [0, 10] \<rparr>
         | Inr files \<Rightarrow>
             let fileEntries = fileEntriesOf files;
                 st = entryLoop parseDicom (length fileEntries) 0 fileEntries
                        \<lparr> dicomDataCache = cache0, dicomFiles = [], seriesMap = [],
                          processedCount = 0, reported = [0, 10, 20] \<rparr>;
                 out = assembleSeries fpu (seriesMap st);
                 h = h\<lparr>loadingProgress := 100\<rparr>
             in if length out = 0
                then \<lparr> hook = h\<lparr>error := Some (errorMessage (ErrorObject noValidFiles)),
                                  isLoading := False\<rparr>,
                       cache = dicomDataCache st,
                       progress = reported st @ [85, 100] \<rparr>
                else \<lparr> hook = h\<lparr>series := out, hasLoaded := True, isLoading := False\<rparr>,
                       cache = dicomDataCache st,
                       progress = reported st @ [85, 100] \<rparr>)"

section \<open>Notions used to state the results\<close>

text \<open>The plane the classifier gives an image.\<close>

definition planeOf :: "engine \<Rightarrow> DicomImage \<Rightarrow> ViewType" where
  "planeOf fpu img = classifyPlane fpu (map Fin (imageOrientationPatient img))"

text \<open>
  What one archive entry contributes to a run: nothing when its bytes cannot be read, the
  filter rejects them or the decode fails; otherwise the decoded image, with the series
  identifier when one is recovered.
\<close>

definition decodeEntry :: "dicomParser \<Rightarrow> string \<times> ZipEntry \<Rightarrow> (DicomImage \<times> string option) option" where
  "decodeEntry parseDicom entry =
     (case arraybuffer (snd entry) of
        None \<Rightarrow> None
      | Some arrayBuffer \<Rightarrow>
          if hasDICM arrayBuffer \<or> parsedOk parseDicom arrayBuffer
          then (case parseDicomFile parseDicom arrayBuffer (justFilenameOf (fst entry)) of
                  None \<Rightarrow> None
                | Some dicomImage \<Rightarrow> Some (dicomImage, getSeriesInstanceUID parseDicom arrayBuffer))
          else None)"

text \<open>
  The decoded images that carry a series identifier, in decode order, and the members of
  one series among them.
\<close>

definition attributed :: "dicomParser \<Rightarrow> (string \<times> ZipEntry) list \<Rightarrow> (string \<times> DicomImage) list" where
  "attributed parseDicom entries =
     concat (map (\<lambda>entry. case decodeEntry parseDicom entry of
                            Some (img, Some uid) \<Rightarrow> [(uid, img)]
                          | _ \<Rightarrow> []) entries)"

definition membersOf :: "string \<Rightarrow> (string \<times> DicomImage) list \<Rightarrow> DicomImage list" where
  "membersOf uid ps = map snd (filter (\<lambda>p. fst p = uid) ps)"

text \<open>The per-series map built by pushing those images one after the other.\<close>

definition groupBySeries :: "(string \<times> DicomImage) list \<Rightarrow> DicomImage list jsMap" where
  "groupBySeries ps = fold (\<lambda>p. addToSeries (fst p) (snd p)) ps []"

text \<open>
  The candidate filter in the words of the specification: the signature check (the buffer
  is long enough to hold bytes 128 to 131, and they are the marker \<open>DICM\<close>) and the
  structural probe (the decode bounded by the tag \<open>x00020010\<close> completes without error).
\<close>

definition dicomMagic :: bytes where
  "dicomMagic = map of_char ''DICM''"

definition spec_signature_check :: "bytes \<Rightarrow> bool" where
  "spec_signature_check bs = (length bs \<ge> 132 \<and> take 4 (drop 128 bs) = dicomMagic)"

definition spec_structural_probe :: "dicomParser \<Rightarrow> bytes \<Rightarrow> bool" where
  "spec_structural_probe parseDicom bs =
     (case parseDicom bs (Some ''x00020010'') of None \<Rightarrow> False | Some dataSet \<Rightarrow> True)"

definition spec_is_candidate :: "dicomParser \<Rightarrow> bytes \<Rightarrow> bool" where
  "spec_is_candidate parseDicom bs =
     (spec_signature_check bs \<or> spec_structural_probe parseDicom bs)"

text \<open>
  The test of the source on a multi-valued element, \<open>element && element.length >= n\<close>,
  and one component as the source reads it: the value of the buffer unless the read is
  absent, \<open>NaN\<close> or zero.
\<close>

definition lengthTest :: "DataSet \<Rightarrow> string \<Rightarrow> nat \<Rightarrow> bool" where
  "lengthTest dataSet tag n =
     (case elements dataSet tag of None \<Rightarrow> False | Some len \<Rightarrow> n \<le> len)"

definition componentOr :: "DataSet \<Rightarrow> string \<Rightarrow> real \<Rightarrow> nat \<Rightarrow> real" where
  "componentOr dataSet tag d i =
     (case float_rd dataSet tag i of
        Value v \<Rightarrow> if v = 0 then d else v
      | Undefined \<Rightarrow> d
      | Throws \<Rightarrow> d)"

text \<open>
  A multi-valued attribute in the words of the specification. The element's value holds
  as many components as four-byte floats fit in its bytes (none when the element is
  absent); the attribute has at least \<open>n\<close> components; the result is either the default
  as a whole or the \<open>n\<close> components exactly as the buffer holds them.
\<close>

definition elementBytes :: "DataSet \<Rightarrow> string \<Rightarrow> nat" where
  "elementBytes dataSet tag = (case elements dataSet tag of None \<Rightarrow> 0 | Some len \<Rightarrow> len)"

definition componentCount :: "DataSet \<Rightarrow> string \<Rightarrow> nat" where
  "componentCount dataSet tag = elementBytes dataSet tag div 4"

definition hasAtLeast :: "DataSet \<Rightarrow> string \<Rightarrow> nat \<Rightarrow> bool" where
  "hasAtLeast dataSet tag n = (n \<le> componentCount dataSet tag)"

definition spec_whole_or_default ::
  "DataSet \<Rightarrow> string \<Rightarrow> nat \<Rightarrow> real list \<Rightarrow> real list \<Rightarrow> bool" where
  "spec_whole_or_default dataSet tag n dflt result =
     (result = dflt
      \<or> (hasAtLeast dataSet tag n \<and> map Value result = map (float_rd dataSet tag) [0..<n]))"

text \<open>What one archive entry does to the byte cache.\<close>

definition cacheStep :: "dicomParser \<Rightarrow> string \<times> ZipEntry \<Rightarrow> bytes jsMap \<Rightarrow> bytes jsMap" where
  "cacheStep parseDicom entry c =
     (case arraybuffer (snd entry) of
        None \<Rightarrow> c
      | Some bs \<Rightarrow>
          if hasDICM bs \<or> parsedOk parseDicom bs
          then (if justFilenameOf (fst entry) \<noteq> fst entry
                then storeDicomData (justFilenameOf (fst entry)) bs
                       (storeDicomData (fst entry) bs c)
                else storeDicomData (fst entry) bs c)
          else c)"

section \<open>Example inputs\<close>

text \<open>
  An engine for the examples: exact on finite operands where the exact result is
  defined, \<open>NaN\<close> in every other case. It is not IEEE arithmetic, it never rounds and
  has no infinite result; on the example inputs every intermediate value of the
  classifier is \<open>-1\<close>, \<open>0\<close> or \<open>1\<close>, where the two agree.
\<close>

definition exactBinary :: "(real \<Rightarrow> real \<Rightarrow> real) \<Rightarrow> number \<Rightarrow> number \<Rightarrow> number" where
  "exactBinary f a b =
     (case a of Fin x \<Rightarrow> (case b of Fin y \<Rightarrow> Fin (f x y) | _ \<Rightarrow> NaN) | _ \<Rightarrow> NaN)"

definition exampleEngine :: engine where
  "exampleEngine =
     \<lparr> fmul = exactBinary (\<lambda>x y. x * y),
       fsub = exactBinary (\<lambda>x y. x - y),
       fadd = exactBinary (\<lambda>x y. x + y),
       fdiv = (\<lambda>a b. if b = Fin 0 then NaN else exactBinary (\<lambda>x y. x / y) a b),
       fsquare = (\<lambda>a. case a of Fin x \<Rightarrow> Fin (x * x) | _ \<Rightarrow> NaN),
       fsqrt = (\<lambda>a. case a of Fin x \<Rightarrow> if x < 0 then NaN else Fin (sqrt x) | _ \<Rightarrow> NaN) \<rparr>"

text \<open>
  A parser that fails on an empty buffer and otherwise returns a data set with series
  identifier \<open>S\<close>, the first byte as slice location and no geometric elements; an
  archive with a directory, two decodable files and one file the filter rejects; a stack of
  three axial slices.
\<close>

definition exampleDataSet :: "byte \<Rightarrow> DataSet" where
  "exampleDataSet b =
     \<lparr> elements = (\<lambda>tag. if tag = ''x00201041'' then Some 4
                          else if tag = ''x0020000e'' then Some 2 else None),
       float_rd = (\<lambda>tag i. if tag = ''x00201041'' then Value (real (unat b)) else Undefined),
       uint16_rd = (\<lambda>tag. Undefined),
       string_rd = (\<lambda>tag. if tag = ''x0020000e'' then Value ''S'' else Undefined) \<rparr>"

definition exampleParser :: dicomParser where
  "exampleParser bs untilTag = (case bs of [] \<Rightarrow> None | b # rest \<Rightarrow> Some (exampleDataSet b))"

definition exampleFiles :: "(string \<times> ZipEntry) list" where
  "exampleFiles =
     [(''scan/'', \<lparr>dir = True, arraybuffer = None\<rparr>),
      (''scan/b.dcm'', \<lparr>dir = False, arraybuffer = Some [7]\<rparr>),
      (''notes.txt'', \<lparr>dir = False, arraybuffer = Some []\<rparr>),
      (''a.dcm'', \<lparr>dir = False, arraybuffer = Some [3]\<rparr>)]"

definition exampleImage :: "string \<Rightarrow> real \<Rightarrow> real list \<Rightarrow> DicomImage" where
  "exampleImage name loc pos =
     \<lparr> imageId = ''dicom:'' @ name, instanceNumber = 0, sliceLocation = loc,
       imagePositionPatient = pos, imageOrientationPatient = [1, 0, 0, 0, 1, 0],
       pixelSpacing = [1, 1], rows = 0, columns = 0, bitsAllocated = 16,
       samplesPerPixel = 1, photometricInterpretation = ''MONOCHROME2'',
       windowCenter = 0, windowWidth = 0, rescaleIntercept = 0, rescaleSlope = 1 \<rparr>"

definition exampleStack :: "DicomImage list" where
  "exampleStack =
     [exampleImage ''s0'' 0 [2, 1, 0], exampleImage ''s1'' 10 [1, 2, 10],
      exampleImage ''s2'' 20 [0, 0, 20]]"

text \<open>The series the example archive yields, and a hook state before any run.\<close>

definition exampleSeries :: DicomSeries where
  "exampleSeries =
     \<lparr> seriesInstanceUID = ''S'', seriesDescription = ''DICOM Series'', modality = ''CT'',
       images = [exampleImage ''a.dcm'' 3 [0, 0, 0], exampleImage ''b.dcm'' 7 [0, 0, 0]],
       axialImages = [exampleImage ''a.dcm'' 3 [0, 0, 0], exampleImage ''b.dcm'' 7 [0, 0, 0]],
       coronalImages = [exampleImage ''a.dcm'' 3 [0, 0, 0], exampleImage ''b.dcm'' 7 [0, 0, 0]],
       sagittalImages = [exampleImage ''a.dcm'' 3 [0, 0, 0], exampleImage ''b.dcm'' 7 [0, 0, 0]] \<rparr>"

definition exampleHook :: HookState where
  "exampleHook =
     \<lparr> series = [], isLoading = False, error = None, hasLoaded = False, loadingProgress = 0 \<rparr>"


definition zeroSpacingDataSet :: DataSet where
  "zeroSpacingDataSet =
     \<lparr> elements = (\<lambda>tag. if tag = ''x00280030'' then Some 8 else None),
       float_rd = (\<lambda>tag i. if tag = ''x00280030''
                            then (if i = 0 then Value 0 else Value (5 / 2))
                            else Undefined),
       uint16_rd = (\<lambda>tag. Undefined),
       string_rd = (\<lambda>tag. Undefined) \<rparr>"

definition zeroSpacingImage :: DicomImage where
  "zeroSpacingImage = (exampleImage ''a.dcm'' 0 [0, 0, 0])\<lparr>pixelSpacing := [1, 5 / 2]\<rparr>"

definition shortPositionDataSet :: DataSet where
  "shortPositionDataSet =
     \<lparr> elements = (\<lambda>tag. if tag = ''x00200032'' then Some 4 else None),
       float_rd = (\<lambda>tag i. if tag = ''x00200032''
                            then (if i = 0 then Value 5 else if i = 1 then Value 7 else Value 9)
                            else Undefined),
       uint16_rd = (\<lambda>tag. Undefined),
       string_rd = (\<lambda>tag. Undefined) \<rparr>"

definition secondFiles :: "(string \<times> ZipEntry) list" where
  "secondFiles = [(''c.dcm'', \<lparr>dir = False, arraybuffer = Some [9]\<rparr>)]"

section \<open>Plane classification: results\<close>

lemma normalizedOf_six:
  "normalizedOf fpu [a, b, c, d, e, f] =
     (case spec_slice_normal fpu (a, b, c) (d, e, f) of (nx, ny, nz) \<Rightarrow> [nx, ny, nz])"
  by (simp add: normalizedOf_def normalOf_def magnitudeOf_def spec_slice_normal_def
      cross_def component_def jsGreater_def Let_def)

text \<open>
  \<open>Math.max(x, y, z) === z\<close> holds exactly when \<open>z\<close> is a largest argument, and likewise
  for \<open>y\<close>; with a \<open>NaN\<close> among the arguments neither holds.
\<close>

lemma mathMax_is_third:
  "jsStrictEq (mathMax x y z) z \<longleftrightarrow> jsAtLeast z x \<and> jsAtLeast z y"
  by (cases x; cases y; cases z)
     (auto simp: mathMax_def mathMax2_def jsStrictEq_def jsAtLeast_def)

lemma mathMax_is_second:
  "jsStrictEq (mathMax x y z) y \<longleftrightarrow> jsAtLeast y x \<and> jsAtLeast y z"
  by (cases x; cases y; cases z)
     (auto simp: mathMax_def mathMax2_def jsStrictEq_def jsAtLeast_def)

lemma classifyPlane_six:
  "classifyPlane fpu [a, b, c, d, e, f] = spec_classify fpu (a, b, c) (d, e, f)"
proof -
  obtain nx ny nz where n: "spec_slice_normal fpu (a, b, c) (d, e, f) = (nx, ny, nz)"
    by (cases "spec_slice_normal fpu (a, b, c) (d, e, f)") auto
  have m: "normalizedOf fpu [a, b, c, d, e, f] = [nx, ny, nz]"
    by (simp add: normalizedOf_six n)
  show ?thesis
    unfolding classifyPlane_def spec_classify_def m n
    by (simp add: Let_def isClose_def within_tenth_of_one_def mathMax_is_third
        mathMax_is_second)
qed

lemma units_arith:
  assumes "exactOnUnits fpu"
  shows "fmul fpu (Fin 0) (Fin 0) = Fin 0" and "fmul fpu (Fin 0) (Fin 1) = Fin 0"
    and "fmul fpu (Fin 1) (Fin 0) = Fin 0" and "fmul fpu (Fin 1) (Fin 1) = Fin 1"
    and "fsub fpu (Fin 0) (Fin 0) = Fin 0" and "fsub fpu (Fin 1) (Fin 0) = Fin 1"
    and "fsub fpu (Fin 0) (Fin 1) = Fin (- 1)" and "fsub fpu (Fin 1) (Fin 1) = Fin 0"
    and "fadd fpu (Fin 0) (Fin 0) = Fin 0" and "fadd fpu (Fin 0) (Fin 1) = Fin 1"
    and "fadd fpu (Fin 1) (Fin 0) = Fin 1"
    and "fdiv fpu (Fin 0) (Fin 1) = Fin 0" and "fdiv fpu (Fin 1) (Fin 1) = Fin 1"
    and "fdiv fpu (Fin (- 1)) (Fin 1) = Fin (- 1)"
    and "fsquare fpu (Fin 0) = Fin 0" and "fsquare fpu (Fin 1) = Fin 1"
    and "fsquare fpu (Fin (- 1)) = Fin 1"
    and "fsqrt fpu (Fin 1) = Fin 1"
  using assms unfolding exactOnUnits_def by simp_all

lemma tenth_tests: "jsLess (Fin 0) tenth" "\<not> jsLess (Fin 1) tenth"
  by (simp_all add: tenth_def)

lemma classifyPlane_identity:
  "exactOnUnits fpu \<Longrightarrow> classifyPlane fpu [Fin 1, Fin 0, Fin 0, Fin 0, Fin 1, Fin 0] = Axial"
  by (simp add: classifyPlane_def normalizedOf_def normalOf_def magnitudeOf_def
      component_def isClose_def jsGreater_def Let_def units_arith tenth_tests)

lemma classifyPlane_coronal:
  "exactOnUnits fpu \<Longrightarrow> classifyPlane fpu [Fin 1, Fin 0, Fin 0, Fin 0, Fin 0, Fin 1] = Coronal"
  by (simp add: classifyPlane_def normalizedOf_def normalOf_def magnitudeOf_def
      component_def isClose_def jsGreater_def Let_def units_arith tenth_tests)

lemma classifyPlane_sagittal:
  "exactOnUnits fpu \<Longrightarrow> classifyPlane fpu [Fin 0, Fin 1, Fin 0, Fin 0, Fin 0, Fin 1] = Sagittal"
  by (simp add: classifyPlane_def normalizedOf_def normalOf_def magnitudeOf_def
      component_def isClose_def jsGreater_def Let_def units_arith tenth_tests)

lemma exampleEngine_exact: "exactOnUnits exampleEngine"
  by (simp add: exactOnUnits_def exampleEngine_def exactBinary_def)

text \<open>
  Where rounding decides, the model follows the engine. For the orientation
  \<open>(1, e, 0, e, 1, 1)\<close> with a tiny \<open>e\<close> the exact normal has \<open>|n.y| > |n.z|\<close>; an engine
  that rounds \<open>1 - e * e\<close> to \<open>1\<close>, as doubles do for \<open>e\<close> the 30th negative power of 2,
  computes a tie, and the image is axial. The hypotheses list what the engine returns on
  the way: \<open>s\<close> for the square root of 2, \<open>t\<close> and \<open>u\<close> for the quotients, \<open>dt\<close> and
  \<open>du\<close> for their distance to 1.
\<close>

lemma rounded_tie_is_axial:
  assumes "fmul fpu (Fin e) (Fin 1) = Fin e" and "fmul fpu (Fin 0) (Fin 1) = Fin 0"
    and "fmul fpu (Fin 0) (Fin e) = Fin 0" and "fmul fpu (Fin 1) (Fin 1) = Fin 1"
    and "fmul fpu (Fin e) (Fin e) = Fin (e * e)"
    and "fsub fpu (Fin e) (Fin 0) = Fin e" and "fsub fpu (Fin 0) (Fin 1) = Fin (- 1)"
    and "fsub fpu (Fin 1) (Fin (e * e)) = Fin 1"
    and "fsquare fpu (Fin e) = Fin (e * e)" and "fsquare fpu (Fin (- 1)) = Fin 1"
    and "fsquare fpu (Fin 1) = Fin 1"
    and "fadd fpu (Fin (e * e)) (Fin 1) = Fin 1" and "fadd fpu (Fin 1) (Fin 1) = Fin 2"
    and "fsqrt fpu (Fin 2) = Fin s" and "0 < s"
    and "fdiv fpu (Fin e) (Fin s) = Fin u" and "fdiv fpu (Fin (- 1)) (Fin s) = Fin (- t)"
    and "fdiv fpu (Fin 1) (Fin s) = Fin t" and "\<bar>u\<bar> \<le> t"
    and "fsub fpu (Fin t) (Fin 1) = Fin dt" and "1 / 5 \<le> \<bar>dt\<bar>"
    and "fsub fpu (Fin \<bar>u\<bar>) (Fin 1) = Fin du" and "1 / 5 \<le> \<bar>du\<bar>" and "0 \<le> t"
  shows "classifyPlane fpu [Fin 1, Fin e, Fin 0, Fin e, Fin 1, Fin 1] = Axial"
  using assms
  by (simp add: classifyPlane_def normalizedOf_def normalOf_def magnitudeOf_def
      component_def isClose_def jsGreater_def Let_def tenth_def mathMax_def mathMax2_def
      jsStrictEq_def)

text \<open>
  C1. For every orientation of six components, and whatever the engine's arithmetic
  returns, the classifier of the source is the classifier the specification describes:
  the normal is the cross product of the row and column vectors, normalised when its
  magnitude is positive and \<open>(0,0,1)\<close> otherwise; the plane is axial when \<open>|n.z|\<close> is
  within 0.1 of 1, else coronal for \<open>|n.y|\<close>, else sagittal for \<open>|n.x|\<close>, else the plane of
  the largest absolute component with ties going to axial, then coronal, then sagittal.
  Being a function of the orientation alone it is total and deterministic. On an engine
  that is exact on the units the three canonical orientations map to axial, coronal and
  sagittal.
\<close>

theorem C1_classifyPlane_refines_spec:
  "classifyPlane fpu [a, b, c, d, e, f] = spec_classify fpu (a, b, c) (d, e, f)
   \<and> (exactOnUnits fpu \<longrightarrow>
        classifyPlane fpu [Fin 1, Fin 0, Fin 0, Fin 0, Fin 1, Fin 0] = Axial
        \<and> classifyPlane fpu [Fin 1, Fin 0, Fin 0, Fin 0, Fin 0, Fin 1] = Coronal
        \<and> classifyPlane fpu [Fin 0, Fin 1, Fin 0, Fin 0, Fin 0, Fin 1] = Sagittal)"
  using classifyPlane_six [of fpu a b c d e f] classifyPlane_identity classifyPlane_coronal
    classifyPlane_sagittal
  by simp

theorem C1_classifyPlane_refines_spec_witness:
  "exactOnUnits exampleEngine
   \<and> classifyPlane exampleEngine [Fin 1, Fin 0, Fin 0, Fin 0, Fin 1, Fin 0] = Axial
   \<and> classifyPlane exampleEngine [Fin 1, Fin 0, Fin 0, Fin 0, Fin 0, Fin 1] = Coronal
   \<and> classifyPlane exampleEngine [Fin 0, Fin 1, Fin 0, Fin 0, Fin 0, Fin 1] = Sagittal
   \<and> classifyPlane exampleEngine [Fin 1, Fin 0, Fin 0, Fin 0, Fin 1, Fin 0]
       = spec_classify exampleEngine (Fin 1, Fin 0, Fin 0) (Fin 0, Fin 1, Fin 0)"
  using C1_classifyPlane_refines_spec [of exampleEngine "Fin 1" "Fin 0" "Fin 0" "Fin 0" "Fin 1" "Fin 0"]
    exampleEngine_exact
  by auto

section \<open>Auxiliary facts\<close>

subsection \<open>Sorting by a key\<close>

text \<open>With a comparator that is a difference of keys, the array sort is the stable sort by key.\<close>

lemma insertBy_diff: "insertBy (\<lambda>a b. f a - f b) x ys = insort_key f x ys"
  by (induction ys) auto

lemma arraySort_diff: "arraySort (\<lambda>a b. f a - f b) xs = sort_key f xs"
  by (simp add: arraySort_def sort_key_def insertBy_diff [abs_def])

lemma sortImagesByPosition_sort_key: "sortImagesByPosition imgs = sort_key sliceLocation imgs"
  by (simp add: sortImagesByPosition_def arraySort_diff)

lemma orderBy_sort_key: "orderBy arr axisIndex = sort_key (positionKey axisIndex) arr"
  by (simp add: orderBy_def arraySort_diff)

subsection \<open>The classification loop and the fallback\<close>

lemma classifyLoop_filter:
  "classifyLoop fpu imgs (a, c, s) =
     (a @ filter (\<lambda>i. planeOf fpu i = Axial) imgs,
      c @ filter (\<lambda>i. planeOf fpu i = Coronal) imgs,
      s @ filter (\<lambda>i. planeOf fpu i = Sagittal) imgs)"
  by (induction imgs arbitrary: a c s) (auto simp: planeOf_def split: ViewType.splits)

lemma classifyLoop_start:
  "classifyLoop fpu imgs ([], [], []) =
     (filter (\<lambda>i. planeOf fpu i = Axial) imgs,
      filter (\<lambda>i. planeOf fpu i = Coronal) imgs,
      filter (\<lambda>i. planeOf fpu i = Sagittal) imgs)"
  by (simp add: classifyLoop_filter)

lemma planes_cover:
  "mset (filter (\<lambda>i. planeOf fpu i = Axial) imgs)
   + mset (filter (\<lambda>i. planeOf fpu i = Coronal) imgs)
   + mset (filter (\<lambda>i. planeOf fpu i = Sagittal) imgs) = mset imgs"
proof (induction imgs)
  case Nil
  then show ?case by simp
next
  case (Cons i imgs)
  then show ?case by (cases "planeOf fpu i") simp_all
qed

lemma primary_not_all_empty:
  assumes "imgs \<noteq> []" and "classifyLoop fpu imgs ([], [], []) = (a, c, s)"
  shows "a \<noteq> [] \<or> c \<noteq> [] \<or> s \<noteq> []"
proof -
  from assms(2) have "mset a + mset c + mset s = mset imgs"
    using planes_cover [of fpu imgs] by (simp add: classifyLoop_start)
  with assms(1) show ?thesis by auto
qed

lemma fallbackFill_nonempty:
  assumes "a \<noteq> [] \<or> c \<noteq> [] \<or> s \<noteq> []"
  shows "fallbackFill imgs (a, c, s) =
           (if a = [] then imgs else a, if c = [] then imgs else c, if s = [] then imgs else s)"
  using assms by (auto simp: fallbackFill_def Let_def)

subsection \<open>Maps\<close>

lemma map_of_mapSet: "map_of (mapSet k v m) = (map_of m)(k \<mapsto> v)"
  by (induction m) (auto simp: fun_eq_iff)

lemma keys_mapSet: "fst ` set (mapSet k v m) = insert k (fst ` set m)"
  by (induction m) force+

lemma distinct_mapSet: "distinct (map fst m) \<Longrightarrow> distinct (map fst (mapSet k v m))"
  by (induction m) (auto simp: keys_mapSet)

subsection \<open>Progress reports of the entry loop\<close>

lemma reported_processEntry:
  "reported (processEntry pd n i e st) = reported st @ [progressAt n i]"
  by (cases e) (simp add: processEntry_def Let_def split: option.splits)

lemma reported_entryLoop:
  "reported (entryLoop pd n i es st) = reported st @ map (progressAt n) [i..<i + length es]"
proof (induction es arbitrary: i st)
  case Nil
  then show ?case by simp
next
  case (Cons e es)
  have "[i..<i + length (e # es)] = i # [Suc i..<Suc i + length es]"
    using upt_conv_Cons [of i "i + length (e # es)"] by simp
  then show ?case
    using Cons.IH [of "i + 1" "processEntry pd n i e st"]
    by (simp add: reported_processEntry)
qed

lemma progressAt_mono: "i \<le> j \<Longrightarrow> progressAt n i \<le> progressAt n j"
  by (simp add: progressAt_def divide_right_mono)

lemma progressAt_bounds: "i < n \<Longrightarrow> 20 \<le> progressAt n i \<and> progressAt n i \<le> 80"
proof -
  assume "i < n"
  then have lo: "0 \<le> real i / real n" and "real i / real n \<le> 1"
    by simp_all
  then have "(real i / real n) * 60 \<le> 1 * 60"
    by (intro mult_right_mono) simp_all
  with lo show ?thesis by (simp add: progressAt_def)
qed

lemma sorted_progress: "sorted (map (progressAt n) [0..<n])"
proof -
  have "sorted_wrt (\<lambda>i j. progressAt n i \<le> progressAt n j) [0..<n]"
    by (rule sorted_wrt_mono_rel [OF _ sorted_wrt_upt]) (simp add: progressAt_mono)
  then show ?thesis by (simp add: sorted_wrt_map)
qed

subsection \<open>The series map of the entry loop\<close>

lemma seriesMap_processEntry:
  "seriesMap (processEntry pd n i e st) =
     (case decodeEntry pd e of
        Some (img, Some uid) \<Rightarrow> addToSeries uid img (seriesMap st)
      | _ \<Rightarrow> seriesMap st)"
  by (cases e) (simp add: processEntry_def decodeEntry_def Let_def split: option.splits)

lemma seriesMap_entryLoop:
  "seriesMap (entryLoop pd n i es st) =
     fold (\<lambda>p. addToSeries (fst p) (snd p)) (attributed pd es) (seriesMap st)"
proof (induction es arbitrary: i st)
  case Nil
  then show ?case by (simp add: attributed_def)
next
  case (Cons e es)
  show ?case
    using Cons.IH [of "i + 1" "processEntry pd n i e st"]
    by (simp add: attributed_def seriesMap_processEntry split: option.splits)
qed

lemma map_of_addToSeries:
  "map_of (addToSeries uid img m) =
     (map_of m)(uid \<mapsto> (case map_of m uid of None \<Rightarrow> [] | Some xs \<Rightarrow> xs) @ [img])"
  by (auto simp: addToSeries_def mapHas_def mapGet_def map_of_mapSet Let_def fun_eq_iff)

lemma distinct_addToSeries:
  "distinct (map fst m) \<Longrightarrow> distinct (map fst (addToSeries uid img m))"
  by (auto simp: addToSeries_def Let_def distinct_mapSet split: option.splits)

lemma distinct_fold_addToSeries:
  "distinct (map fst m) \<Longrightarrow>
   distinct (map fst (fold (\<lambda>p. addToSeries (fst p) (snd p)) ps m))"
  by (induction ps arbitrary: m) (simp_all add: distinct_addToSeries)

lemma map_of_fold_addToSeries:
  "map_of (fold (\<lambda>p. addToSeries (fst p) (snd p)) ps m) uid =
     (if membersOf uid ps = [] then map_of m uid
      else Some ((case map_of m uid of None \<Rightarrow> [] | Some xs \<Rightarrow> xs) @ membersOf uid ps))"
proof (induction ps arbitrary: m)
  case Nil
  then show ?case by (simp add: membersOf_def)
next
  case (Cons p ps)
  show ?case
    using Cons.IH [of "addToSeries (fst p) (snd p) m"]
    by (auto simp: membersOf_def map_of_addToSeries split: option.splits)
qed

lemma groupBySeries_member:
  assumes "(uid, imgs) \<in> set (groupBySeries ps)"
  shows "imgs = membersOf uid ps \<and> imgs \<noteq> []"
proof -
  have "distinct (map fst (groupBySeries ps))"
    unfolding groupBySeries_def by (rule distinct_fold_addToSeries) simp
  with assms have "map_of (groupBySeries ps) uid = Some imgs"
    by simp
  then show ?thesis
    by (simp add: groupBySeries_def map_of_fold_addToSeries split: if_splits)
qed

lemma groupBySeries_nonempty:
  assumes "ps \<noteq> []"
  shows "\<exists>uid imgs. (uid, imgs) \<in> set (groupBySeries ps) \<and> imgs \<noteq> []"
proof -
  from assms obtain uid img where "(uid, img) \<in> set ps"
    by (cases ps) auto
  then have "membersOf uid ps \<noteq> []"
    by (force simp: membersOf_def filter_empty_conv)
  then have "map_of (groupBySeries ps) uid = Some (membersOf uid ps)"
    by (simp add: groupBySeries_def map_of_fold_addToSeries)
  then have "(uid, membersOf uid ps) \<in> set (groupBySeries ps)"
    by (rule map_of_SomeD)
  with \<open>membersOf uid ps \<noteq> []\<close> show ?thesis by blast
qed

subsection \<open>Series assembly and the run\<close>

lemma in_assembleSeries:
  "g \<in> set (assembleSeries fpu m) \<Longrightarrow>
   \<exists>imgs. (seriesInstanceUID g, imgs) \<in> set m \<and> imgs \<noteq> []
     \<and> images g = sortImagesByPosition imgs
     \<and> (axialImages g, coronalImages g, sagittalImages g) = classifyPlanes fpu (images g)"
proof (induction m)
  case Nil
  then show ?case by simp
next
  case (Cons p m)
  obtain uid imgs where p: "p = (uid, imgs)" by (cases p)
  show ?case
  proof (cases "g \<in> set (assembleSeries fpu m)")
    case True
    with Cons.IH show ?thesis by auto
  next
    case False
    with Cons.prems p show ?thesis
      by (auto simp: Let_def split: if_splits prod.splits)
  qed
qed

lemma assembleSeries_empty_iff:
  "assembleSeries fpu m = [] \<longleftrightarrow> (\<forall>p \<in> set m. snd p = [])"
  by (induction m) (auto simp: Let_def split: prod.splits if_splits)

lemma run_loaded:
  "parseZipFile fpu pd (Inr files) h0 c0 =
     (let entries = fileEntriesOf files;
          st = entryLoop pd (length entries) 0 entries
                 \<lparr> dicomDataCache = c0, dicomFiles = [], seriesMap = [],
                   processedCount = 0, reported = [0, 10, 20] \<rparr>;
          out = assembleSeries fpu (groupBySeries (attributed pd entries))
      in \<lparr> hook = (if out = []
                   then h0\<lparr>isLoading := False, error := Some noValidFiles, hasLoaded := False,
                           loadingProgress := 100\<rparr>
                   else h0\<lparr>isLoading := False, error := None, hasLoaded := True,
                           loadingProgress := 100, series := out\<rparr>),
           cache = dicomDataCache st,
           progress = [0, 10, 20] @ map (progressAt (length entries)) [0..<length entries]
                      @ [85, 100] \<rparr>)"
  by (simp add: parseZipFile_def Let_def seriesMap_entryLoop groupBySeries_def
      reported_entryLoop errorMessage_def)

subsection \<open>The examples, evaluated\<close>

lemma exampleImage_fields:
  "sliceLocation (exampleImage name loc pos) = loc"
  "imagePositionPatient (exampleImage name loc pos) = pos"
  "imageOrientationPatient (exampleImage name loc pos) = [1, 0, 0, 0, 1, 0]"
  by (simp_all add: exampleImage_def)

lemma example_parse:
  "parseDicomFile exampleParser [b] name = Some (exampleImage name (real (unat b)) [0, 0, 0])"
  by (simp add: parseDicomFile_def exampleParser_def exampleDataSet_def exampleImage_def
      orNum_def orStr_def getImagePositionPatient_def getImageOrientationPatient_def
      getPixelSpacing_def)

lemma example_attributed:
  "attributed exampleParser (fileEntriesOf exampleFiles) =
     [(''S'', exampleImage ''b.dcm'' 7 [0, 0, 0]), (''S'', exampleImage ''a.dcm'' 3 [0, 0, 0])]"
  by (simp add: attributed_def fileEntriesOf_def exampleFiles_def decodeEntry_def
      hasDICM_def parsedOk_def example_parse justFilenameOf_def getSeriesInstanceUID_def
      exampleParser_def exampleDataSet_def)

lemma example_classifyLoop: "classifyLoop exampleEngine exampleStack ([], [], []) = (exampleStack, [], [])"
  by (simp add: exampleStack_def exampleImage_fields classifyPlane_identity [OF exampleEngine_exact])

lemma example_classifyPlanes:
  "classifyPlanes exampleEngine exampleStack =
     ([exampleImage ''s0'' 0 [2, 1, 0], exampleImage ''s1'' 10 [1, 2, 10],
       exampleImage ''s2'' 20 [0, 0, 20]],
      [exampleImage ''s2'' 20 [0, 0, 20], exampleImage ''s0'' 0 [2, 1, 0],
       exampleImage ''s1'' 10 [1, 2, 10]],
      [exampleImage ''s2'' 20 [0, 0, 20], exampleImage ''s1'' 10 [1, 2, 10],
       exampleImage ''s0'' 0 [2, 1, 0]])"
  unfolding classifyPlanes_def example_classifyLoop
  by (simp add: fallbackFill_def orderBy_def arraySort_def positionKey_def exampleStack_def
      exampleImage_fields Let_def)

subsection \<open>What a successful run produces\<close>

lemma classifyPlanes_nonempty:
  assumes "imgs \<noteq> []" and "classifyPlanes fpu imgs = (A, C, S)"
  shows "A \<noteq> [] \<and> C \<noteq> [] \<and> S \<noteq> []"
proof -
  obtain a c s where acs: "classifyLoop fpu imgs ([], [], []) = (a, c, s)"
    by (cases "classifyLoop fpu imgs ([], [], [])") auto
  have ne: "a \<noteq> [] \<or> c \<noteq> [] \<or> s \<noteq> []"
    using assms(1) acs by (rule primary_not_all_empty)
  have "length A = length (if a = [] then imgs else a)"
    and "length C = length (if c = [] then imgs else c)"
    and "length S = length (if s = [] then imgs else s)"
    using assms(2) unfolding classifyPlanes_def acs fallbackFill_nonempty [OF ne]
    by (auto simp: orderBy_sort_key)
  with assms(1) show ?thesis by (auto split: if_splits)
qed

lemma produced_series:
  assumes "hasLoaded (hook (parseZipFile fpu pd (Inr files) h0 c0))"
    and "g \<in> set (series (hook (parseZipFile fpu pd (Inr files) h0 c0)))"
  shows "membersOf (seriesInstanceUID g) (attributed pd (fileEntriesOf files)) \<noteq> []
     \<and> images g = sortImagesByPosition
                     (membersOf (seriesInstanceUID g) (attributed pd (fileEntriesOf files)))
     \<and> (axialImages g, coronalImages g, sagittalImages g) = classifyPlanes fpu (images g)"
proof -
  let ?ps = "attributed pd (fileEntriesOf files)"
  let ?out = "assembleSeries fpu (groupBySeries ?ps)"
  from assms(1) have "?out \<noteq> []"
    by (auto simp: run_loaded Let_def split: if_splits)
  with assms(2) have "g \<in> set ?out"
    by (simp add: run_loaded Let_def)
  then obtain imgs where m: "(seriesInstanceUID g, imgs) \<in> set (groupBySeries ?ps)"
    and i: "images g = sortImagesByPosition imgs"
    and p: "(axialImages g, coronalImages g, sagittalImages g) = classifyPlanes fpu (images g)"
    using in_assembleSeries [of g fpu "groupBySeries ?ps"] by blast
  from groupBySeries_member [OF m] i p show ?thesis by auto
qed

lemma loaded_never_on_open_failure:
  "\<not> hasLoaded (hook (parseZipFile fpu pd (Inl err) h0 c0))"
  by (simp add: parseZipFile_def Let_def)

lemma example_assembled:
  "assembleSeries exampleEngine (groupBySeries (attributed exampleParser (fileEntriesOf exampleFiles)))
     = [exampleSeries]"
  by (simp add: example_attributed groupBySeries_def addToSeries_def mapHas_def mapGet_def
      Let_def sortImagesByPosition_def arraySort_def exampleImage_fields classifyPlanes_def
      classifyPlane_identity [OF exampleEngine_exact] fallbackFill_def orderBy_def positionKey_def exampleSeries_def)

lemma example_run:
  "hook (parseZipFile exampleEngine exampleParser (Inr exampleFiles) exampleHook [])
     = exampleHook\<lparr>isLoading := False, error := None, hasLoaded := True,
                   loadingProgress := 100, series := [exampleSeries]\<rparr>"
  by (simp add: run_loaded example_assembled Let_def)

lemma attributed_empty_iff:
  "attributed pd es = [] \<longleftrightarrow>
     (\<forall>e \<in> set es. \<forall>img uid. decodeEntry pd e \<noteq> Some (img, Some uid))"
  by (induction es) (auto simp: attributed_def split: option.splits)

lemma assembled_empty_iff:
  "assembleSeries fpu (groupBySeries ps) = [] \<longleftrightarrow> ps = []"
proof
  assume e: "assembleSeries fpu (groupBySeries ps) = []"
  show "ps = []"
  proof (rule ccontr)
    assume "ps \<noteq> []"
    from groupBySeries_nonempty [OF this] e show False
      by (force simp: assembleSeries_empty_iff)
  qed
next
  assume "ps = []"
  then show "assembleSeries fpu (groupBySeries ps) = []"
    by (simp add: groupBySeries_def)
qed

lemma attributed_filter:
  "attributed pd (filter (\<lambda>e. decodeEntry pd e \<noteq> None) es) = attributed pd es"
proof (induction es)
  case Nil
  then show ?case by simp
next
  case (Cons e es)
  then show ?case
    by (cases "decodeEntry pd e") (simp_all add: attributed_def)
qed

lemma fileEntriesOf_filter: "fileEntriesOf (filter P files) = filter P (fileEntriesOf files)"
  by (induction files) (auto simp: fileEntriesOf_def)

lemma hook_run_loaded:
  "hook (parseZipFile fpu pd (Inr files) h0 c0) =
     (let out = assembleSeries fpu (groupBySeries (attributed pd (fileEntriesOf files)))
      in if out = []
         then h0\<lparr>isLoading := False, error := Some noValidFiles, hasLoaded := False,
                 loadingProgress := 100\<rparr>
         else h0\<lparr>isLoading := False, error := None, hasLoaded := True,
                 loadingProgress := 100, series := out\<rparr>)"
  by (simp add: run_loaded Let_def)

lemma progress_open_failure:
  "progress (parseZipFile fpu pd (Inl err) h0 c0) = [0, 10]"
  by (simp add: parseZipFile_def Let_def)

lemma progress_loaded:
  "progress (parseZipFile fpu pd (Inr files) h0 c0) =
     [0, 10, 20] @ map (progressAt (length (fileEntriesOf files)))
                     [0..<length (fileEntriesOf files)] @ [85, 100]"
  by (simp add: run_loaded Let_def)

lemma progress_loop_values:
  "v \<in> set (map (progressAt n) [0..<n]) \<Longrightarrow> 20 \<le> v \<and> v \<le> 80"
  using progressAt_bounds by auto

subsection \<open>The candidate filter\<close>

lemma take4_drop128:
  assumes "length bs \<ge> 132"
  shows "take 4 (drop 128 bs) = [bs ! 128, bs ! 129, bs ! 130, bs ! 131]"
proof (rule nth_equalityI)
  show "length (take 4 (drop 128 bs)) = length [bs ! 128, bs ! 129, bs ! 130, bs ! 131]"
    using assms by simp
next
  fix i assume "i < length (take 4 (drop 128 bs))"
  then have "i < 4" by simp
  then consider "i = 0" | "i = 1" | "i = 2" | "i = 3" by linarith
  then show "take 4 (drop 128 bs) ! i = [bs ! 128, bs ! 129, bs ! 130, bs ! 131] ! i"
    using assms by cases simp_all
qed

lemma parsedOk_probe: "parsedOk pd bs \<longleftrightarrow> spec_structural_probe pd bs"
  by (simp add: parsedOk_def spec_structural_probe_def split: option.splits)

text \<open>
  The test of the source is the signature check of the specification but for buffers of
  exactly 132 bytes, which it never accepts.
\<close>

lemma hasDICM_signature:
  "hasDICM bs \<longleftrightarrow> spec_signature_check bs \<and> length bs \<noteq> 132"
proof (cases "length bs \<ge> 132")
  case True
  then show ?thesis
    by (auto simp: hasDICM_def spec_signature_check_def dicomMagic_def take4_drop128)
next
  case False
  then show ?thesis by (simp add: hasDICM_def spec_signature_check_def)
qed

lemma filter_agrees_off_boundary:
  "length bs \<noteq> 132 \<Longrightarrow>
   (spec_is_candidate pd bs \<longleftrightarrow> hasDICM bs \<or> parsedOk pd bs)"
  by (simp add: spec_is_candidate_def hasDICM_signature parsedOk_probe)

lemma processEntry_rejected:
  assumes "arraybuffer zipEntry = Some bs" and "\<not> hasDICM bs" and "\<not> parsedOk pd bs"
  shows "processEntry pd n i (filename, zipEntry) st
           = st\<lparr>reported := reported st @ [progressAt n i]\<rparr>"
  using assms by (simp add: processEntry_def)

lemma cache_processEntry_accepted:
  assumes "arraybuffer zipEntry = Some bs" and "hasDICM bs \<or> parsedOk pd bs"
  shows "dicomDataCache (processEntry pd n i (filename, zipEntry) st)
           = (if justFilenameOf filename \<noteq> filename
              then storeDicomData (justFilenameOf filename) bs
                     (storeDicomData filename bs (dicomDataCache st))
              else storeDicomData filename bs (dicomDataCache st))"
  using assms by (auto simp: processEntry_def Let_def split: option.splits)


subsection \<open>Geometric attributes\<close>

lemma orNum_component:
  "orNum (float_rd ds tag i) d = Some x \<Longrightarrow> x = componentOr ds tag d i"
  by (auto simp: orNum_def componentOr_def split: rd.splits)

lemma getImagePositionPatient_Some:
  assumes "getImagePositionPatient ds = Some p"
  shows "p = (if lengthTest ds ''x00200032'' 3
              then map (componentOr ds ''x00200032'' 0) [0, 1, 2] else [0, 0, 0])"
proof (cases "lengthTest ds ''x00200032'' 3")
  case True
  then obtain len where "elements ds ''x00200032'' = Some len" and "3 \<le> len"
    by (auto simp: lengthTest_def split: option.splits)
  with assms True show ?thesis
    by (auto simp: getImagePositionPatient_def bind_eq_Some_conv dest!: orNum_component)
next
  case False
  with assms show ?thesis
    by (auto simp: getImagePositionPatient_def lengthTest_def split: option.splits)
qed

lemma getImageOrientationPatient_Some:
  assumes "getImageOrientationPatient ds = Some p"
  shows "p = (if lengthTest ds ''x00200037'' 6
              then map (componentOr ds ''x00200037'' 0) [0, 1, 2, 3, 4, 5]
              else [1, 0, 0, 0, 1, 0])"
proof (cases "lengthTest ds ''x00200037'' 6")
  case True
  then obtain len where "elements ds ''x00200037'' = Some len" and "6 \<le> len"
    by (auto simp: lengthTest_def split: option.splits)
  with assms True show ?thesis
    by (auto simp: getImageOrientationPatient_def bind_eq_Some_conv dest!: orNum_component)
next
  case False
  with assms show ?thesis
    by (auto simp: getImageOrientationPatient_def lengthTest_def split: option.splits)
qed

lemma getPixelSpacing_Some:
  assumes "getPixelSpacing ds = Some p"
  shows "p = (if lengthTest ds ''x00280030'' 2
              then map (componentOr ds ''x00280030'' 1) [0, 1] else [1, 1])"
proof (cases "lengthTest ds ''x00280030'' 2")
  case True
  then obtain len where "elements ds ''x00280030'' = Some len" and "2 \<le> len"
    by (auto simp: lengthTest_def split: option.splits)
  with assms True show ?thesis
    by (auto simp: getPixelSpacing_def bind_eq_Some_conv dest!: orNum_component)
next
  case False
  with assms show ?thesis
    by (auto simp: getPixelSpacing_def lengthTest_def split: option.splits)
qed

lemma lengthTest_of_components:
  "0 < n \<Longrightarrow> n \<le> componentCount ds tag \<Longrightarrow> lengthTest ds tag n"
  by (auto simp: lengthTest_def componentCount_def elementBytes_def split: option.splits)

lemma lengthTest_of_empty:
  "0 < n \<Longrightarrow> elementBytes ds tag = 0 \<Longrightarrow> \<not> lengthTest ds tag n"
  by (auto simp: lengthTest_def elementBytes_def split: option.splits)

lemma parseDicomFile_geometry:
  assumes "parseDicom arrayBuffer None = Some ds"
    and "parseDicomFile parseDicom arrayBuffer filename = Some img"
  shows "getImagePositionPatient ds = Some (imagePositionPatient img)
     \<and> getImageOrientationPatient ds = Some (imageOrientationPatient img)
     \<and> getPixelSpacing ds = Some (pixelSpacing img)"
  using assms(2) unfolding parseDicomFile_def assms(1)
  by (clarsimp simp: bind_eq_Some_conv)

lemma zeroSpacing_parse:
  "parseDicomFile (\<lambda>bs untilTag. Some zeroSpacingDataSet) [] ''a.dcm'' = Some zeroSpacingImage"
  by (simp add: parseDicomFile_def zeroSpacingDataSet_def zeroSpacingImage_def
      exampleImage_def orNum_def orStr_def getImagePositionPatient_def
      getImageOrientationPatient_def getPixelSpacing_def)

text \<open>
  The length test counts bytes. A position element of four bytes holds one component,
  passes the test \<open>length >= 3\<close>, and is read as three components.
\<close>

lemma short_position_read_as_three:
  "componentCount shortPositionDataSet ''x00200032'' = 1
   \<and> lengthTest shortPositionDataSet ''x00200032'' 3
   \<and> getImagePositionPatient shortPositionDataSet = Some [5, 7, 9]"
  by (simp add: componentCount_def elementBytes_def lengthTest_def shortPositionDataSet_def
      getImagePositionPatient_def orNum_def)

subsection \<open>The byte cache of a run\<close>

lemma cache_processEntry:
  "dicomDataCache (processEntry pd n i e st) = cacheStep pd e (dicomDataCache st)"
  by (cases e) (simp add: processEntry_def cacheStep_def Let_def split: option.splits)

lemma cache_entryLoop:
  "dicomDataCache (entryLoop pd n i es st) = fold (cacheStep pd) es (dicomDataCache st)"
  by (induction es arbitrary: i st) (simp_all add: cache_processEntry)

lemma cache_run_loaded:
  "cache (parseZipFile fpu pd (Inr files) h0 c0) = fold (cacheStep pd) (fileEntriesOf files) c0"
  by (simp add: run_loaded Let_def cache_entryLoop)

lemma mapHas_mapSet: "mapHas k m \<Longrightarrow> mapHas k (mapSet k' v m)"
  by (simp add: mapHas_def map_of_mapSet)

lemma mapHas_cacheStep: "mapHas k c \<Longrightarrow> mapHas k (cacheStep pd e c)"
  by (simp add: cacheStep_def storeDicomData_def mapHas_mapSet split: option.splits)

lemma cache_keys_survive:
  "mapHas k c0 \<Longrightarrow> mapHas k (cache (parseZipFile fpu pd loaded h0 c0))"
proof (cases loaded)
  case (Inl err)
  assume "mapHas k c0"
  with Inl show ?thesis by (simp add: parseZipFile_def Let_def)
next
  case (Inr files)
  assume k: "mapHas k c0"
  have "mapHas k (fold (cacheStep pd) es c)" if "mapHas k c" for es c
    using that by (induction es arbitrary: c) (simp_all add: mapHas_cacheStep)
  with k Inr show ?thesis by (simp add: cache_run_loaded)
qed

lemma example_cache:
  "cache (parseZipFile exampleEngine exampleParser (Inr exampleFiles) exampleHook [])
     = [(''scan/b.dcm'', [7]), (''b.dcm'', [7]), (''a.dcm'', [3])]"
  by (simp add: cache_run_loaded fileEntriesOf_def exampleFiles_def cacheStep_def hasDICM_def
      parsedOk_def exampleParser_def justFilenameOf_def storeDicomData_def)

lemma series_independent_of_cache:
  "error (hook (parseZipFile fpu pd (Inr files) h0 c0)) = error (hook (parseZipFile fpu pd (Inr files) h1 c1))
   \<and> hasLoaded (hook (parseZipFile fpu pd (Inr files) h0 c0))
       = hasLoaded (hook (parseZipFile fpu pd (Inr files) h1 c1))
   \<and> (hasLoaded (hook (parseZipFile fpu pd (Inr files) h0 c0)) \<longrightarrow>
        series (hook (parseZipFile fpu pd (Inr files) h0 c0))
          = series (hook (parseZipFile fpu pd (Inr files) h1 c1)))"
  by (simp add: hook_run_loaded Let_def)

section \<open>The plane stacks: results\<close>

text \<open>
  C4. Before the fallback, the classification loop partitions the images it is given:
  the three buckets are the images of each plane, in order, and together they hold every
  image exactly once.
\<close>

theorem C4_primary_classification_partitions:
  "classifyLoop fpu imgs ([], [], []) =
     (filter (\<lambda>i. planeOf fpu i = Axial) imgs,
      filter (\<lambda>i. planeOf fpu i = Coronal) imgs,
      filter (\<lambda>i. planeOf fpu i = Sagittal) imgs)
   \<and> mset (fst (classifyLoop fpu imgs ([], [], [])))
     + mset (fst (snd (classifyLoop fpu imgs ([], [], []))))
     + mset (snd (snd (classifyLoop fpu imgs ([], [], [])))) = mset imgs"
  using planes_cover [of fpu imgs] by (simp add: classifyLoop_start)

lemma stacks_are_sorted_buckets:
  assumes "imgs \<noteq> []"
    and "classifyLoop fpu imgs ([], [], []) = (a, c, s)"
    and "classifyPlanes fpu imgs = (A, C, S)"
  shows "A = sort_key (positionKey 2) (if a = [] then imgs else a)"
    and "C = sort_key (positionKey 1) (if c = [] then imgs else c)"
    and "S = sort_key (positionKey 0) (if s = [] then imgs else s)"
proof -
  have ne: "a \<noteq> [] \<or> c \<noteq> [] \<or> s \<noteq> []"
    using assms(1,2) by (rule primary_not_all_empty)
  show "A = sort_key (positionKey 2) (if a = [] then imgs else a)"
    and "C = sort_key (positionKey 1) (if c = [] then imgs else c)"
    and "S = sort_key (positionKey 0) (if s = [] then imgs else s)"
    using assms(3) unfolding classifyPlanes_def assms(2) fallbackFill_nonempty [OF ne]
    by (simp_all add: orderBy_sort_key)
qed

text \<open>
  The key the comparator reads is the component of the position; on a list of images
  whose positions have three components, sorting by it is sorting by that component.
\<close>

lemma positionKey_component:
  "n < length (imagePositionPatient i) \<Longrightarrow> positionKey n i = imagePositionPatient i ! n"
  by (simp add: positionKey_def)

lemma sorted_by_component:
  assumes "\<forall>i \<in> set xs. length (imagePositionPatient i) = 3" and "n < 3"
  shows "sorted (map (\<lambda>i. imagePositionPatient i ! n) (sort_key (positionKey n) xs))"
    and "filter (\<lambda>i. imagePositionPatient i ! n = k) (sort_key (positionKey n) xs)
           = filter (\<lambda>i. imagePositionPatient i ! n = k) xs"
proof -
  have key: "positionKey n i = imagePositionPatient i ! n" if "i \<in> set xs" for i
    using that assms by (simp add: positionKey_component)
  have eq: "map (\<lambda>i. imagePositionPatient i ! n) (sort_key (positionKey n) xs)
          = map (positionKey n) (sort_key (positionKey n) xs)"
    by (rule map_cong) (simp_all add: key)
  show "sorted (map (\<lambda>i. imagePositionPatient i ! n) (sort_key (positionKey n) xs))"
    unfolding eq by (rule sorted_sort_key)
  have "filter (\<lambda>i. imagePositionPatient i ! n = k) (sort_key (positionKey n) xs)
          = filter (\<lambda>i. positionKey n i = k) (sort_key (positionKey n) xs)"
    by (rule filter_cong) (simp_all add: key)
  also have "\<dots> = filter (\<lambda>i. positionKey n i = k) xs"
    by (rule sort_key_stable)
  also have "\<dots> = filter (\<lambda>i. imagePositionPatient i ! n = k) xs"
    by (rule filter_cong) (simp_all add: key)
  finally show "filter (\<lambda>i. imagePositionPatient i ! n = k) (sort_key (positionKey n) xs)
           = filter (\<lambda>i. imagePositionPatient i ! n = k) xs" .
qed

text \<open>
  C3. For a non-empty series of images whose positions have their three components, with
  \<open>(a, c, s)\<close> the buckets of the classification loop and \<open>(A, C, S)\<close> the stacks
  returned: every empty bucket is replaced by the whole image list, and each stack is its
  bucket sorted ascending and stably by its own component of \<open>imagePositionPatient\<close>, the
  axial stack by z (index 2), the coronal stack by y (index 1), the sagittal stack by x
  (index 0): the stack is sorted by that component, and for every value of it the images
  carrying the value stand as they do in the bucket. When exactly one bucket is non-empty
  before the fallback, all three stacks hold the same images as the list.
\<close>

theorem C3_fallback_and_resort:
  assumes "imgs \<noteq> []"
    and "\<forall>i \<in> set imgs. length (imagePositionPatient i) = 3"
    and "classifyLoop fpu imgs ([], [], []) = (a, c, s)"
    and "classifyPlanes fpu imgs = (A, C, S)"
  shows "sorted (map (\<lambda>i. imagePositionPatient i ! 2) A)
     \<and> (\<forall>k. filter (\<lambda>i. imagePositionPatient i ! 2 = k) A
            = filter (\<lambda>i. imagePositionPatient i ! 2 = k) (if a = [] then imgs else a))
     \<and> sorted (map (\<lambda>i. imagePositionPatient i ! 1) C)
     \<and> (\<forall>k. filter (\<lambda>i. imagePositionPatient i ! 1 = k) C
            = filter (\<lambda>i. imagePositionPatient i ! 1 = k) (if c = [] then imgs else c))
     \<and> sorted (map (\<lambda>i. imagePositionPatient i ! 0) S)
     \<and> (\<forall>k. filter (\<lambda>i. imagePositionPatient i ! 0 = k) S
            = filter (\<lambda>i. imagePositionPatient i ! 0 = k) (if s = [] then imgs else s))
     \<and> ((a \<noteq> [] \<and> c = [] \<and> s = []) \<or> (a = [] \<and> c \<noteq> [] \<and> s = [])
          \<or> (a = [] \<and> c = [] \<and> s \<noteq> [])
        \<longrightarrow> mset A = mset imgs \<and> mset C = mset imgs \<and> mset S = mset imgs)"
proof -
  note st = stacks_are_sorted_buckets [OF assms(1,3,4)]
  have buckets: "a = filter (\<lambda>i. planeOf fpu i = Axial) imgs"
    "c = filter (\<lambda>i. planeOf fpu i = Coronal) imgs"
    "s = filter (\<lambda>i. planeOf fpu i = Sagittal) imgs"
    using assms(3) by (simp_all add: classifyLoop_start)
  have la: "\<forall>i \<in> set (if a = [] then imgs else a). length (imagePositionPatient i) = 3"
    and lc: "\<forall>i \<in> set (if c = [] then imgs else c). length (imagePositionPatient i) = 3"
    and ls: "\<forall>i \<in> set (if s = [] then imgs else s). length (imagePositionPatient i) = 3"
    using assms(2) by (auto simp: buckets)
  have cover: "mset a + mset c + mset s = mset imgs"
    using planes_cover [of fpu imgs] by (simp add: buckets)
  have one: "mset A = mset imgs \<and> mset C = mset imgs \<and> mset S = mset imgs"
    if "(a \<noteq> [] \<and> c = [] \<and> s = []) \<or> (a = [] \<and> c \<noteq> [] \<and> s = [])
        \<or> (a = [] \<and> c = [] \<and> s \<noteq> [])"
    using that cover by (auto simp: st)
  have z: "sorted (map (\<lambda>i. imagePositionPatient i ! 2) A)
     \<and> (\<forall>k. filter (\<lambda>i. imagePositionPatient i ! 2 = k) A
            = filter (\<lambda>i. imagePositionPatient i ! 2 = k) (if a = [] then imgs else a))"
    unfolding st using sorted_by_component [OF la, of 2] by simp
  have y: "sorted (map (\<lambda>i. imagePositionPatient i ! 1) C)
     \<and> (\<forall>k. filter (\<lambda>i. imagePositionPatient i ! 1 = k) C
            = filter (\<lambda>i. imagePositionPatient i ! 1 = k) (if c = [] then imgs else c))"
    unfolding st using sorted_by_component [OF lc, of 1] by simp
  have x: "sorted (map (\<lambda>i. imagePositionPatient i ! 0) S)
     \<and> (\<forall>k. filter (\<lambda>i. imagePositionPatient i ! 0 = k) S
            = filter (\<lambda>i. imagePositionPatient i ! 0 = k) (if s = [] then imgs else s))"
    unfolding st using sorted_by_component [OF ls, of 0] by simp
  show ?thesis
    using z y x one by blast
qed

theorem C3_fallback_and_resort_witness:
  "exampleStack \<noteq> []
   \<and> list_all (\<lambda>i. length (imagePositionPatient i) = 3) exampleStack
   \<and> classifyLoop exampleEngine exampleStack ([], [], []) = (exampleStack, [], [])
   \<and> classifyPlanes exampleEngine exampleStack =
       ([exampleImage ''s0'' 0 [2, 1, 0], exampleImage ''s1'' 10 [1, 2, 10],
         exampleImage ''s2'' 20 [0, 0, 20]],
        [exampleImage ''s2'' 20 [0, 0, 20], exampleImage ''s0'' 0 [2, 1, 0],
         exampleImage ''s1'' 10 [1, 2, 10]],
        [exampleImage ''s2'' 20 [0, 0, 20], exampleImage ''s1'' 10 [1, 2, 10],
         exampleImage ''s0'' 0 [2, 1, 0]])
   \<and> sorted (map (\<lambda>i. imagePositionPatient i ! 1)
        [exampleImage ''s2'' 20 [0, 0, 20], exampleImage ''s0'' 0 [2, 1, 0],
         exampleImage ''s1'' 10 [1, 2, 10]])
   \<and> sorted (map (\<lambda>i. imagePositionPatient i ! 0)
        [exampleImage ''s2'' 20 [0, 0, 20], exampleImage ''s1'' 10 [1, 2, 10],
         exampleImage ''s0'' 0 [2, 1, 0]])
   \<and> mset [exampleImage ''s2'' 20 [0, 0, 20], exampleImage ''s1'' 10 [1, 2, 10],
         exampleImage ''s0'' 0 [2, 1, 0]] = mset exampleStack"
proof -
  have ne: "exampleStack \<noteq> []" by (simp add: exampleStack_def)
  have len: "\<forall>i \<in> set exampleStack. length (imagePositionPatient i) = 3"
    by (simp add: exampleStack_def exampleImage_fields)
  have la: "list_all (\<lambda>i. length (imagePositionPatient i) = 3) exampleStack"
    by (simp add: exampleStack_def exampleImage_fields)
  note t = C3_fallback_and_resort [OF ne len example_classifyLoop example_classifyPlanes]
  from t have y: "sorted (map (\<lambda>i. imagePositionPatient i ! 1)
        [exampleImage ''s2'' 20 [0, 0, 20], exampleImage ''s0'' 0 [2, 1, 0],
         exampleImage ''s1'' 10 [1, 2, 10]])"
    by blast
  from t have x: "sorted (map (\<lambda>i. imagePositionPatient i ! 0)
        [exampleImage ''s2'' 20 [0, 0, 20], exampleImage ''s1'' 10 [1, 2, 10],
         exampleImage ''s0'' 0 [2, 1, 0]])"
    by blast
  from t ne have m: "mset [exampleImage ''s2'' 20 [0, 0, 20], exampleImage ''s1'' 10 [1, 2, 10],
         exampleImage ''s0'' 0 [2, 1, 0]] = mset exampleStack"
    by blast
  show ?thesis
    using ne la example_classifyLoop example_classifyPlanes y x m by blast
qed

text \<open>
  C10. Every series a successful run produces has its axial, coronal and sagittal stacks
  all non-empty.
\<close>

theorem C10_no_empty_plane:
  assumes "hasLoaded (hook (parseZipFile fpu parseDicom loaded hook0 cache0))"
    and "g \<in> set (series (hook (parseZipFile fpu parseDicom loaded hook0 cache0)))"
  shows "axialImages g \<noteq> [] \<and> coronalImages g \<noteq> [] \<and> sagittalImages g \<noteq> []"
proof (cases loaded)
  case (Inl err)
  with assms(1) show ?thesis by (simp add: loaded_never_on_open_failure)
next
  case (Inr files)
  note ps = produced_series [OF assms [unfolded Inr]]
  from ps have "length (images g)
      = length (membersOf (seriesInstanceUID g) (attributed parseDicom (fileEntriesOf files)))"
    by (simp add: sortImagesByPosition_sort_key)
  with ps have ne: "images g \<noteq> []"
    by auto
  from ps have p: "classifyPlanes fpu (images g) = (axialImages g, coronalImages g, sagittalImages g)"
    by simp
  from classifyPlanes_nonempty [OF ne p] show ?thesis .
qed

theorem C10_no_empty_plane_witness:
  "hasLoaded (hook (parseZipFile exampleEngine exampleParser (Inr exampleFiles) exampleHook []))
   \<and> exampleSeries \<in> set (series (hook (parseZipFile exampleEngine exampleParser (Inr exampleFiles) exampleHook [])))
   \<and> axialImages exampleSeries \<noteq> [] \<and> coronalImages exampleSeries \<noteq> []
   \<and> sagittalImages exampleSeries \<noteq> []"
proof -
  have l: "hasLoaded (hook (parseZipFile exampleEngine exampleParser (Inr exampleFiles) exampleHook []))"
    by (simp add: example_run)
  have m: "exampleSeries \<in> set (series (hook (parseZipFile exampleEngine exampleParser (Inr exampleFiles) exampleHook [])))"
    by (simp add: example_run)
  show ?thesis
    using C10_no_empty_plane [OF l m] l m by simp
qed

section \<open>The archive run: results\<close>

text \<open>
  C2. For every series a successful run produces, \<open>images\<close> is sorted ascending by
  \<open>sliceLocation\<close>; it holds exactly the images decoded with that series identifier, and
  images of equal \<open>sliceLocation\<close> keep their decode order (for every key value the images
  carrying it appear as they do among the members in archive order).
\<close>

theorem C2_images_sorted_stable:
  assumes "hasLoaded (hook (parseZipFile fpu parseDicom (Inr files) hook0 cache0))"
    and "g \<in> set (series (hook (parseZipFile fpu parseDicom (Inr files) hook0 cache0)))"
  shows "sorted (map sliceLocation (images g))
     \<and> (\<forall>k. filter (\<lambda>img. sliceLocation img = k) (images g)
            = filter (\<lambda>img. sliceLocation img = k)
                (membersOf (seriesInstanceUID g) (attributed parseDicom (fileEntriesOf files))))
     \<and> mset (images g)
         = mset (membersOf (seriesInstanceUID g) (attributed parseDicom (fileEntriesOf files)))"
  using produced_series [OF assms]
  by (simp add: sortImagesByPosition_sort_key sort_key_stable)

theorem C2_images_sorted_stable_witness:
  "hasLoaded (hook (parseZipFile exampleEngine exampleParser (Inr exampleFiles) exampleHook []))
   \<and> exampleSeries \<in> set (series (hook (parseZipFile exampleEngine exampleParser (Inr exampleFiles) exampleHook [])))
   \<and> sorted (map sliceLocation (images exampleSeries))
   \<and> mset (images exampleSeries)
       = mset (membersOf ''S'' (attributed exampleParser (fileEntriesOf exampleFiles)))"
proof -
  have l: "hasLoaded (hook (parseZipFile exampleEngine exampleParser (Inr exampleFiles) exampleHook []))"
    by (simp add: example_run)
  have m: "exampleSeries \<in> set (series (hook (parseZipFile exampleEngine exampleParser (Inr exampleFiles) exampleHook [])))"
    by (simp add: example_run)
  have u: "seriesInstanceUID exampleSeries = ''S''"
    by (simp add: exampleSeries_def)
  show ?thesis
    using C2_images_sorted_stable [OF l m] l m by (simp add: u)
qed

text \<open>
  C5. For an archive that opens, the run ends either without error or with the one
  message \<open>noValidFiles\<close>; it fails exactly when the assembled series list is empty,
  which is exactly when no entry decodes to an image with a series identifier (so also
  when no entry is recognised, and when every decoded image lacks the identifier). Without
  error the hook holds the assembled, non-empty series list; on failure the series of the
  hook are left as they were. Entries that are unreadable, rejected or undecodable change
  nothing: the run on the archive without them ends in the same hook state.
\<close>

theorem C5_batch_outcome:
  "(error (hook (parseZipFile fpu parseDicom (Inr files) hook0 cache0)) = Some noValidFiles
      \<or> error (hook (parseZipFile fpu parseDicom (Inr files) hook0 cache0)) = None)
   \<and> (error (hook (parseZipFile fpu parseDicom (Inr files) hook0 cache0)) = Some noValidFiles
        \<longleftrightarrow> assembleSeries fpu (groupBySeries (attributed parseDicom (fileEntriesOf files))) = [])
   \<and> (assembleSeries fpu (groupBySeries (attributed parseDicom (fileEntriesOf files))) = []
        \<longleftrightarrow> (\<forall>e \<in> set (fileEntriesOf files). \<forall>img uid.
               decodeEntry parseDicom e \<noteq> Some (img, Some uid)))
   \<and> (error (hook (parseZipFile fpu parseDicom (Inr files) hook0 cache0)) = None
        \<longrightarrow> hasLoaded (hook (parseZipFile fpu parseDicom (Inr files) hook0 cache0))
          \<and> series (hook (parseZipFile fpu parseDicom (Inr files) hook0 cache0))
              = assembleSeries fpu (groupBySeries (attributed parseDicom (fileEntriesOf files)))
          \<and> series (hook (parseZipFile fpu parseDicom (Inr files) hook0 cache0)) \<noteq> [])
   \<and> (error (hook (parseZipFile fpu parseDicom (Inr files) hook0 cache0)) = Some noValidFiles
        \<longrightarrow> \<not> hasLoaded (hook (parseZipFile fpu parseDicom (Inr files) hook0 cache0))
          \<and> series (hook (parseZipFile fpu parseDicom (Inr files) hook0 cache0)) = series hook0)
   \<and> \<not> isLoading (hook (parseZipFile fpu parseDicom (Inr files) hook0 cache0))
   \<and> hook (parseZipFile fpu parseDicom
              (Inr (filter (\<lambda>e. decodeEntry parseDicom e \<noteq> None) files)) hook0 cache0)
       = hook (parseZipFile fpu parseDicom (Inr files) hook0 cache0)"
proof -
  have same: "hook (parseZipFile fpu parseDicom
              (Inr (filter (\<lambda>e. decodeEntry parseDicom e \<noteq> None) files)) hook0 cache0)
       = hook (parseZipFile fpu parseDicom (Inr files) hook0 cache0)"
    by (simp only: hook_run_loaded fileEntriesOf_filter attributed_filter)
  have rest: "assembleSeries fpu (groupBySeries (attributed parseDicom (fileEntriesOf files))) = []
        \<longleftrightarrow> (\<forall>e \<in> set (fileEntriesOf files). \<forall>img uid.
               decodeEntry parseDicom e \<noteq> Some (img, Some uid))"
    by (simp only: assembled_empty_iff attributed_empty_iff)
  show ?thesis
    using same rest by (simp add: hook_run_loaded Let_def)
qed

theorem C5_batch_outcome_witness:
  "error (hook (parseZipFile exampleEngine exampleParser (Inr exampleFiles) exampleHook [])) = None
   \<and> series (hook (parseZipFile exampleEngine exampleParser (Inr exampleFiles) exampleHook [])) = [exampleSeries]
   \<and> hasLoaded (hook (parseZipFile exampleEngine exampleParser (Inr exampleFiles) exampleHook []))"
  using C5_batch_outcome [of exampleEngine exampleParser exampleFiles exampleHook "[]"]
  by (auto simp: example_assembled)

text \<open>
  C9. The progress values reported in one run start at 0, never decrease, and all lie
  between 0 and 100; the progress the hook holds at the end is the last value reported.
\<close>

theorem C9_progress_monotone:
  "hd (progress (parseZipFile fpu parseDicom loaded hook0 cache0)) = 0
   \<and> sorted (progress (parseZipFile fpu parseDicom loaded hook0 cache0))
   \<and> list_all (\<lambda>v. 0 \<le> v \<and> v \<le> 100) (progress (parseZipFile fpu parseDicom loaded hook0 cache0))
   \<and> loadingProgress (hook (parseZipFile fpu parseDicom loaded hook0 cache0))
       = last (progress (parseZipFile fpu parseDicom loaded hook0 cache0))"
proof (cases loaded)
  case (Inl err)
  then show ?thesis
    by (simp add: progress_open_failure) (simp add: parseZipFile_def Let_def)
next
  case (Inr files)
  let ?n = "length (fileEntriesOf files)"
  have b: "\<forall>v \<in> set (map (progressAt ?n) [0..<?n]). 20 \<le> v \<and> v \<le> 80"
    using progress_loop_values by blast
  have s: "sorted ([0, 10, 20] @ map (progressAt ?n) [0..<?n] @ [85, 100])"
    using b sorted_progress [of ?n] by (fastforce simp: sorted_append)
  have a: "list_all (\<lambda>v. 0 \<le> v \<and> v \<le> 100) ([0, 10, 20] @ map (progressAt ?n) [0..<?n] @ [85, 100])"
    using b by (fastforce simp: list_all_iff)
  show ?thesis
    unfolding Inr progress_loaded using s a by (simp add: hook_run_loaded Let_def)
qed

text \<open>
  Off the boundary the filter is the one the specification describes: an entry whose
  bytes can be read and are not exactly 132 long is taken into the run exactly when the
  signature check or the structural probe passes; a buffer failing both is skipped, the
  loop state unchanged but for the progress report; an accepted buffer is stored in the
  byte cache under the archive path and under the basename.
\<close>

lemma candidate_filter_off_boundary:
  assumes "arraybuffer zipEntry = Some bs" and "length bs \<noteq> 132"
  shows "(\<not> spec_is_candidate parseDicom bs \<longrightarrow>
          processEntry parseDicom n i (filename, zipEntry) st
            = st\<lparr>reported := reported st @ [progressAt n i]\<rparr>)
     \<and> (spec_is_candidate parseDicom bs \<longrightarrow>
          mapGet filename (dicomDataCache (processEntry parseDicom n i (filename, zipEntry) st))
            = Some bs
          \<and> mapGet (justFilenameOf filename)
              (dicomDataCache (processEntry parseDicom n i (filename, zipEntry) st)) = Some bs)"
proof -
  have eq: "spec_is_candidate parseDicom bs \<longleftrightarrow> hasDICM bs \<or> parsedOk parseDicom bs"
    using assms(2) by (rule filter_agrees_off_boundary)
  have rej: "processEntry parseDicom n i (filename, zipEntry) st
            = st\<lparr>reported := reported st @ [progressAt n i]\<rparr>"
    if "\<not> spec_is_candidate parseDicom bs"
    using that assms(1) eq by (simp add: processEntry_rejected)
  have acc: "dicomDataCache (processEntry parseDicom n i (filename, zipEntry) st)
           = (if justFilenameOf filename \<noteq> filename
              then storeDicomData (justFilenameOf filename) bs
                     (storeDicomData filename bs (dicomDataCache st))
              else storeDicomData filename bs (dicomDataCache st))"
    if "spec_is_candidate parseDicom bs"
    using that assms(1) eq by (simp add: cache_processEntry_accepted)
  show ?thesis
    using rej acc
    by (auto simp: mapGet_def storeDicomData_def map_of_mapSet)
qed


section \<open>Attribute decoding: results\<close>

text \<open>
  C6, as stated, fails. With a spacing element of two components whose first is zero,
  \<open>(0, 2.5)\<close>, the decoded spacing is \<open>[1, 2.5]\<close>: the second component is taken from the
  buffer and the first is filled in. That is neither the attribute read in full nor the
  default \<open>[1, 1]\<close>.
\<close>

theorem C6_partial_read_counterexample:
  "parseDicomFile (\<lambda>bs untilTag. Some zeroSpacingDataSet) [] ''a.dcm'' = Some zeroSpacingImage
   \<and> componentCount zeroSpacingDataSet ''x00280030'' = 2
   \<and> map (float_rd zeroSpacingDataSet ''x00280030'') [0, 1] = [Value 0, Value (5 / 2)]
   \<and> pixelSpacing zeroSpacingImage = [1, 5 / 2]
   \<and> \<not> spec_whole_or_default zeroSpacingDataSet ''x00280030'' 2 [1, 1]
         (pixelSpacing zeroSpacingImage)"
  by (simp add: zeroSpacing_parse)
     (simp add: zeroSpacingDataSet_def zeroSpacingImage_def exampleImage_def
       spec_whole_or_default_def hasAtLeast_def componentCount_def elementBytes_def
       upt_conv_Cons)

text \<open>
  C6, amended. For every successfully decoded buffer: a geometric attribute whose element
  is absent or empty is its documented default as a whole; one whose element holds at
  least the minimum number of components (3, 6, 2) is read component by component, each
  one being the value of the buffer or, where that value is \<open>NaN\<close> or zero, the default
  of that component (0 for position and orientation, 1 for spacing); the result always
  has 3, 6 or 2 components. Nothing is said of an element that is not empty and holds
  fewer components than the minimum.
\<close>

theorem C6_componentwise_defaults:
  assumes "parseDicom arrayBuffer None = Some dataSet"
    and "parseDicomFile parseDicom arrayBuffer filename = Some img"
  shows "(elementBytes dataSet ''x00200032'' = 0 \<longrightarrow> imagePositionPatient img = [0, 0, 0])
     \<and> (3 \<le> componentCount dataSet ''x00200032'' \<longrightarrow>
          imagePositionPatient img = map (componentOr dataSet ''x00200032'' 0) [0, 1, 2])
     \<and> (elementBytes dataSet ''x00200037'' = 0 \<longrightarrow>
          imageOrientationPatient img = [1, 0, 0, 0, 1, 0])
     \<and> (6 \<le> componentCount dataSet ''x00200037'' \<longrightarrow>
          imageOrientationPatient img
            = map (componentOr dataSet ''x00200037'' 0) [0, 1, 2, 3, 4, 5])
     \<and> (elementBytes dataSet ''x00280030'' = 0 \<longrightarrow> pixelSpacing img = [1, 1])
     \<and> (2 \<le> componentCount dataSet ''x00280030'' \<longrightarrow>
          pixelSpacing img = map (componentOr dataSet ''x00280030'' 1) [0, 1])
     \<and> length (imagePositionPatient img) = 3
     \<and> length (imageOrientationPatient img) = 6
     \<and> length (pixelSpacing img) = 2"
proof -
  note g = parseDicomFile_geometry [OF assms]
  from g have p: "imagePositionPatient img =
           (if lengthTest dataSet ''x00200032'' 3
            then map (componentOr dataSet ''x00200032'' 0) [0, 1, 2] else [0, 0, 0])"
    by (intro getImagePositionPatient_Some) simp
  from g have o: "imageOrientationPatient img =
           (if lengthTest dataSet ''x00200037'' 6
            then map (componentOr dataSet ''x00200037'' 0) [0, 1, 2, 3, 4, 5]
            else [1, 0, 0, 0, 1, 0])"
    by (intro getImageOrientationPatient_Some) simp
  from g have s: "pixelSpacing img =
           (if lengthTest dataSet ''x00280030'' 2
            then map (componentOr dataSet ''x00280030'' 1) [0, 1] else [1, 1])"
    by (intro getPixelSpacing_Some) simp
  have "length (imagePositionPatient img) = 3" by (subst p) simp
  moreover have "length (imageOrientationPatient img) = 6" by (subst o) simp
  moreover have "length (pixelSpacing img) = 2" by (subst s) simp
  moreover have "elementBytes dataSet ''x00200032'' = 0 \<longrightarrow> imagePositionPatient img = [0, 0, 0]"
    using p lengthTest_of_empty [of 3 dataSet "''x00200032''"] by simp
  moreover have "3 \<le> componentCount dataSet ''x00200032'' \<longrightarrow>
          imagePositionPatient img = map (componentOr dataSet ''x00200032'' 0) [0, 1, 2]"
    using p lengthTest_of_components [of 3 dataSet "''x00200032''"] by simp
  moreover have "elementBytes dataSet ''x00200037'' = 0 \<longrightarrow>
          imageOrientationPatient img = [1, 0, 0, 0, 1, 0]"
    using o lengthTest_of_empty [of 6 dataSet "''x00200037''"] by simp
  moreover have "6 \<le> componentCount dataSet ''x00200037'' \<longrightarrow>
          imageOrientationPatient img
            = map (componentOr dataSet ''x00200037'' 0) [0, 1, 2, 3, 4, 5]"
    using o lengthTest_of_components [of 6 dataSet "''x00200037''"] by simp
  moreover have "elementBytes dataSet ''x00280030'' = 0 \<longrightarrow> pixelSpacing img = [1, 1]"
    using s lengthTest_of_empty [of 2 dataSet "''x00280030''"] by simp
  moreover have "2 \<le> componentCount dataSet ''x00280030'' \<longrightarrow>
          pixelSpacing img = map (componentOr dataSet ''x00280030'' 1) [0, 1]"
    using s lengthTest_of_components [of 2 dataSet "''x00280030''"] by simp
  ultimately show ?thesis by blast
qed

theorem C6_componentwise_defaults_witness:
  "parseDicomFile (\<lambda>bs untilTag. Some zeroSpacingDataSet) [] ''a.dcm'' = Some zeroSpacingImage
   \<and> elementBytes zeroSpacingDataSet ''x00200032'' = 0
   \<and> imagePositionPatient zeroSpacingImage = [0, 0, 0]
   \<and> 2 \<le> componentCount zeroSpacingDataSet ''x00280030''
   \<and> pixelSpacing zeroSpacingImage = [1, 5 / 2]
   \<and> length (imageOrientationPatient zeroSpacingImage) = 6"
proof -
  have a: "(\<lambda>bs untilTag. Some zeroSpacingDataSet) ([] :: bytes) (None :: string option)
             = Some zeroSpacingDataSet"
    by simp
  have e: "elementBytes zeroSpacingDataSet ''x00200032'' = 0"
    by (simp add: elementBytes_def zeroSpacingDataSet_def)
  have c: "2 \<le> componentCount zeroSpacingDataSet ''x00280030''"
    by (simp add: componentCount_def elementBytes_def zeroSpacingDataSet_def)
  have v: "map (componentOr zeroSpacingDataSet ''x00280030'' 1) [0, 1] = [1, 5 / 2]"
    by (simp add: componentOr_def zeroSpacingDataSet_def)
  show ?thesis
    using C6_componentwise_defaults [OF a zeroSpacing_parse] zeroSpacing_parse e c v
    by simp
qed

section \<open>The byte cache across runs\<close>

text \<open>
  C7. \<open>parseZipFile\<close> never calls \<open>clearDicomData\<close>: a key cached before a run is still
  cached after it (\<open>cache_keys_survive\<close>). After a run on the example archive and a
  second run on another archive, the entry \<open>a.dcm\<close> of the first run still resolves. The
  outcome of a run does not depend on the cache it starts from
  (\<open>series_independent_of_cache\<close>).
\<close>

theorem C7_stale_cache_entry_survives:
  "mapGet ''a.dcm''
     (cache (parseZipFile exampleEngine exampleParser (Inr secondFiles)
               (hook (parseZipFile exampleEngine exampleParser (Inr exampleFiles) exampleHook []))
               (cache (parseZipFile exampleEngine exampleParser (Inr exampleFiles) exampleHook []))))
     = Some [3]
   \<and> cache (parseZipFile exampleEngine exampleParser (Inr secondFiles)
               (hook (parseZipFile exampleEngine exampleParser (Inr exampleFiles) exampleHook []))
               (cache (parseZipFile exampleEngine exampleParser (Inr exampleFiles) exampleHook [])))
     = [(''scan/b.dcm'', [7]), (''b.dcm'', [7]), (''a.dcm'', [3]), (''c.dcm'', [9])]"
  by (simp add: example_cache)
     (simp add: cache_run_loaded fileEntriesOf_def secondFiles_def cacheStep_def hasDICM_def
       parsedOk_def exampleParser_def justFilenameOf_def storeDicomData_def mapGet_def)

end
